theory Spec2Isabelle
  imports Complex_Main "HOL-Library.AList" "HOL-Library.Stream"
begin

section \<open>Data model\<close>

text \<open>
  The session store of \<^verbatim>\<open>src/app.js\<close> (the revision with \<^verbatim>\<open>SessionManager\<close>, from line 993)
  and the bottle pool of the ocean scene (\<^verbatim>\<open>src/unnamed/part_000\<close>).

  JavaScript strings are modelled as \<^typ>\<open>string\<close> over ASCII text, numbers that hold
  counts and epoch milliseconds as \<^typ>\<open>nat\<close> and \<^typ>\<open>int\<close>, the results of
  \<^verbatim>\<open>Math.random()\<close>, \<^verbatim>\<open>Math.cos\<close>, \<^verbatim>\<open>Math.sin\<close> and \<^verbatim>\<open>Math.sqrt\<close> as reals.
  A value that is \<^verbatim>\<open>null\<close> or a string is a \<^typ>\<open>string option\<close>.
\<close>

record position =
  pos_x :: real
  pos_y :: real
  pos_z :: real

record message =
  id_message :: string
  participantId :: string
  studentName :: "string option"
  isAnonymous :: bool
  selectedOption :: "string option"
  messageText :: string
  wordCount :: nat
  timestamp :: int
  isRead :: bool
  bottlePosition :: position
  bottleColor :: string

datatype mode = Free | Question

text \<open>
  \<open>participants\<close> is a JavaScript \<^verbatim>\<open>Set\<close> (stored as an \<^verbatim>\<open>Array\<close> by
  \<^verbatim>\<open>SessionManager.save\<close> and turned back into a \<^verbatim>\<open>Set\<close> by \<^verbatim>\<open>SessionManager.get\<close>):
  the list of its elements in insertion order. \<open>autoCloseTimer\<close> is a timer handle.
\<close>

record session =
  id_session :: string
  mode :: mode
  question :: "string option"
  optionA :: "string option"
  optionB :: "string option"
  timeout :: int
  createdAt :: int
  isActive :: bool
  participants :: "string list"
  messages :: "message list"
  autoCloseTimer :: "nat option"

text \<open>The argument of \<^verbatim>\<open>createSession\<close>; a field that is absent is \<open>None\<close>.\<close>

record config =
  mode_config :: mode
  question_config :: "string option"
  optionA_config :: "string option"
  optionB_config :: "string option"
  timeout_config :: int

text \<open>The argument of \<^verbatim>\<open>addMessage\<close>, as \<^verbatim>\<open>handleSubmitMessage\<close> builds it.\<close>

record messageInput =
  messageText_input :: string
  studentName_input :: "string option"
  isAnonymous_input :: bool
  selectedOption_input :: "string option"

text \<open>The events dispatched on \<^verbatim>\<open>window\<close>, in the order of dispatch.\<close>

datatype event =
    SessionsUpdated
  | SessionCreated string session
  | MessageAdded string message
  | MessageSubmitted string message
  | SessionClosed string
  | ParticipantJoined string string
  | StateUpdate

text \<open>
  \<open>globalSessions\<close> is the object \<^verbatim>\<open>window.globalSessions\<close> (own properties, keyed by
  session code), \<open>sessions\<close> the \<^verbatim>\<open>Map\<close> \<^verbatim>\<open>AppState.sessions\<close>; both are association
  lists read with \<^const>\<open>map_of\<close>. \<open>events\<close> records every dispatched event.
\<close>

record appState =
  globalSessions :: "(string \<times> session) list"
  sessions :: "(string \<times> session) list"
  socketId :: string
  events :: "event list"

text \<open>
  What one call of \<^verbatim>\<open>addMessage\<close> takes from its environment: the result of
  \<^verbatim>\<open>generateId('msg')\<close>, of \<^verbatim>\<open>Date.now()\<close> and of \<^verbatim>\<open>generateBottleColor()\<close>.
\<close>

record env =
  generatedId :: string
  now :: int
  generatedColor :: string

section \<open>Utility functions\<close>

text \<open>\<^verbatim>\<open>v || null\<close> on a value that is a string, \<^verbatim>\<open>null\<close> or \<^verbatim>\<open>undefined\<close>:
  the empty string is falsy.\<close>

definition orNull :: "string option \<Rightarrow> string option" where
  "orNull v = (case v of None \<Rightarrow> None | Some s \<Rightarrow> if s = [] then None else Some s)"

text \<open>The white space of \<^verbatim>\<open>\s\<close> and of \<^verbatim>\<open>trim()\<close> within ASCII.\<close>

definition isSpace :: "char \<Rightarrow> bool" where
  "isSpace c = (c \<in> set [CHR '' '', CHR 0x09, CHR 0x0A, CHR 0x0B, CHR 0x0C, CHR 0x0D])"

definition trim :: "string \<Rightarrow> string" where
  "trim s = rev (dropWhile isSpace (rev (dropWhile isSpace s)))"

text \<open>\<^verbatim>\<open>s.split(/\s+/)\<close> on a string without white space at either end (the result
  of \<^verbatim>\<open>trim\<close>): the pieces between maximal runs of white space (a run is one separator, closed
  by its last character); the empty string gives the one empty piece.\<close>

fun splitWords :: "string \<Rightarrow> string \<Rightarrow> string list" where
  "splitWords cur [] = [cur]"
| "splitWords cur (c # cs) =
     (if isSpace c then
        (case cs of
           c' # _ \<Rightarrow> if isSpace c' then splitWords cur cs else cur # splitWords [] cs
         | [] \<Rightarrow> cur # splitWords [] cs)
      else splitWords (cur @ [c]) cs)"

definition countWords :: "string \<Rightarrow> nat" where
  "countWords text = length (filter (\<lambda>w. length w > 0) (splitWords [] (trim text)))"

text \<open>\<^verbatim>\<open>toUpperCase()\<close> on ASCII text: the 26 small letters change.\<close>

definition toUpperChar :: "char \<Rightarrow> char" where
  "toUpperChar c =
     (case map_of (zip ''abcdefghijklmnopqrstuvwxyz'' ''ABCDEFGHIJKLMNOPQRSTUVWXYZ'') c of
        Some u \<Rightarrow> u
      | None \<Rightarrow> c)"

definition toUpperCase :: "string \<Rightarrow> string" where
  "toUpperCase s = map toUpperChar s"

definition generateBottlePosition :: "nat \<Rightarrow> position" where
  "generateBottlePosition index =
     (let angle = (real index * 137.5) * pi / 180;
          radius = sqrt (real index + 1) * 5
      in \<lparr>pos_x = cos angle * radius, pos_y = 0, pos_z = sin angle * radius\<rparr>)"

section \<open>SessionManager\<close>

definition SessionManager_save :: "string \<Rightarrow> session \<Rightarrow> appState \<Rightarrow> appState" where
  "SessionManager_save sessionId sessionData st =
     st\<lparr>globalSessions := AList.update sessionId sessionData (globalSessions st),
        sessions := AList.update sessionId sessionData (sessions st),
        events := events st @ [SessionsUpdated]\<rparr>"

text \<open>
  \<^verbatim>\<open>window.globalSessions\<close> is a plain object, so the read
  \<^verbatim>\<open>window.globalSessions[sessionId]\<close> finds the session stored under the string and, for
  a string with no entry, the member of that name that the object inherits from
  \<^verbatim>\<open>Object.prototype\<close>, a function or an object and never a session. \<open>objectPrototype\<close>
  lists those names.
\<close>

datatype found = Stored session | Inherited string

definition objectPrototype :: "string list" where
  "objectPrototype =
     [''constructor'', ''hasOwnProperty'', ''isPrototypeOf'', ''propertyIsEnumerable'',
      ''toLocaleString'', ''toString'', ''valueOf'', ''__proto__'', ''__defineGetter__'',
      ''__defineSetter__'', ''__lookupGetter__'', ''__lookupSetter__'']"

definition readGlobalSessions :: "string \<Rightarrow> appState \<Rightarrow> found option" where
  "readGlobalSessions sessionId st =
     (case map_of (globalSessions st) sessionId of
        Some s \<Rightarrow> Some (Stored s)
      | None \<Rightarrow> if sessionId \<in> set objectPrototype then Some (Inherited sessionId) else None)"

text \<open>
  \<open>SessionManager_get\<close> is \<^verbatim>\<open>SessionManager.get\<close> for the identifiers the store is used
  with: stored codes and strings that are not names of \<open>objectPrototype\<close> (no uppercased
  string and no generated code is one), where the read gives a session or nothing. For a
  name of \<open>objectPrototype\<close> without an entry the code returns the inherited member;
  \<open>readGlobalSessions\<close> gives the value of the read for every string.
\<close>

definition SessionManager_get :: "string \<Rightarrow> appState \<Rightarrow> session option" where
  "SessionManager_get sessionId st = map_of (globalSessions st) sessionId"

definition SessionManager_addMessage :: "string \<Rightarrow> message \<Rightarrow> appState \<Rightarrow> bool \<times> appState" where
  "SessionManager_addMessage sessionId m st =
     (case SessionManager_get sessionId st of
        Some s \<Rightarrow> (True, SessionManager_save sessionId (s\<lparr>messages := messages s @ [m]\<rparr>) st)
      | None \<Rightarrow> (False, st))"

definition SessionManager_addParticipant :: "string \<Rightarrow> string \<Rightarrow> appState \<Rightarrow> bool \<times> appState" where
  "SessionManager_addParticipant sessionId pid st =
     (case SessionManager_get sessionId st of
        Some s \<Rightarrow>
          (True,
           if pid \<notin> set (participants s)
           then SessionManager_save sessionId (s\<lparr>participants := participants s @ [pid]\<rparr>) st
           else st)
      | None \<Rightarrow> (False, st))"

definition SessionManager_delete :: "string \<Rightarrow> appState \<Rightarrow> appState" where
  "SessionManager_delete sessionId st =
     st\<lparr>globalSessions := AList.delete sessionId (globalSessions st),
        sessions := AList.delete sessionId (sessions st)\<rparr>"

section \<open>Session management\<close>

definition getSession :: "string \<Rightarrow> appState \<Rightarrow> session option \<times> appState" where
  "getSession ident st =
     (case SessionManager_get ident st of
        Some s \<Rightarrow> (Some s, st\<lparr>sessions := AList.update ident s (sessions st)\<rparr>)
      | None \<Rightarrow> (None, st))"

text \<open>The object literal \<^verbatim>\<open>messageObj\<close> of \<^verbatim>\<open>addMessage\<close>, for the sender \<open>pid\<close>
  (\<^verbatim>\<open>AppState.socketId\<close>) and a session that holds \<open>n\<close> messages.\<close>

definition messageObj :: "env \<Rightarrow> messageInput \<Rightarrow> string \<Rightarrow> nat \<Rightarrow> message" where
  "messageObj e inp pid n =
     \<lparr>id_message = generatedId e,
      participantId = pid,
      studentName = orNull (studentName_input inp),
      isAnonymous = isAnonymous_input inp,
      selectedOption = orNull (selectedOption_input inp),
      messageText = messageText_input inp,
      wordCount = countWords (messageText_input inp),
      timestamp = now e,
      isRead = False,
      bottlePosition = generateBottlePosition n,
      bottleColor = generatedColor e\<rparr>"

definition addMessage :: "env \<Rightarrow> string \<Rightarrow> messageInput \<Rightarrow> appState \<Rightarrow> bool \<times> appState" where
  "addMessage e sessionId inp st =
     (case getSession sessionId st of
        (None, st1) \<Rightarrow> (False, st1)
      | (Some s, st1) \<Rightarrow>
          if length (messages s) \<ge> 100 then (False, st1)
          else
            let m = messageObj e inp (socketId st1) (length (messages s))
            in (case SessionManager_addMessage sessionId m st1 of
                  (True, st2) \<Rightarrow>
                    let st3 = snd (SessionManager_addParticipant sessionId (socketId st2) st2)
                    in (True, st3\<lparr>events := events st3 @
                          [MessageAdded sessionId m, MessageSubmitted sessionId m]\<rparr>)
                | (False, st2) \<Rightarrow> (False, st2)))"

definition closeSession :: "string \<Rightarrow> appState \<Rightarrow> appState" where
  "closeSession sessionId st =
     (case getSession sessionId st of
        (Some s, st1) \<Rightarrow>
          let st2 = SessionManager_save sessionId (s\<lparr>isActive := False\<rparr>) st1
          in st2\<lparr>events := events st2 @ [SessionClosed sessionId]\<rparr>
      | (None, st1) \<Rightarrow> st1)"

text \<open>\<^verbatim>\<open>message.isRead = true\<close> on the first message \<^verbatim>\<open>find\<close> returns.\<close>

fun markFirst :: "string \<Rightarrow> message list \<Rightarrow> message list" where
  "markFirst messageId [] = []"
| "markFirst messageId (m # ms) =
     (if id_message m = messageId then m\<lparr>isRead := True\<rparr> # ms else m # markFirst messageId ms)"

definition markAsRead :: "string \<Rightarrow> string \<Rightarrow> appState \<Rightarrow> appState" where
  "markAsRead sessionId messageId st =
     (case getSession sessionId st of
        (Some s, st1) \<Rightarrow>
          (case find (\<lambda>m. id_message m = messageId) (messages s) of
             Some m \<Rightarrow>
               SessionManager_save sessionId (s\<lparr>messages := markFirst messageId (messages s)\<rparr>) st1
           | None \<Rightarrow> st1)
      | (None, st1) \<Rightarrow> st1)"

section \<open>Expiry sweep\<close>

definition TWENTY_FOUR_HOURS :: int where
  "TWENTY_FOUR_HOURS = 24 * 60 * 60 * 1000"

text \<open>The loop runs over \<^verbatim>\<open>Object.entries(sessions)\<close>, an array built before the
  first deletion; \<open>dateNow\<close> is the value of \<^verbatim>\<open>Date.now()\<close>.\<close>

definition cleanupSessions :: "int \<Rightarrow> appState \<Rightarrow> appState" where
  "cleanupSessions dateNow st =
     fold (\<lambda>(ident, s) acc.
             if dateNow - createdAt s > TWENTY_FOUR_HOURS \<and> \<not> isActive s
             then SessionManager_delete ident acc else acc)
          (globalSessions st) st"

text \<open>The first revision of the file (lines 45 to 55) keeps the sessions in
  \<^verbatim>\<open>AppState.sessions\<close> only and sweeps after two hours.\<close>

definition TWO_HOURS :: int where
  "TWO_HOURS = 2 * 60 * 60 * 1000"

definition cleanupSessions_rev1 :: "int \<Rightarrow> (string \<times> session) list \<Rightarrow> (string \<times> session) list" where
  "cleanupSessions_rev1 dateNow ss =
     fold (\<lambda>(ident, s) acc.
             if dateNow - createdAt s > TWO_HOURS \<and> \<not> isActive s
             then AList.delete ident acc else acc)
          ss ss"

section \<open>Session codes\<close>

definition chars :: string where
  "chars = ''ABCDEFGHIJKLMNOPQRSTUVWXYZ0123456789''"

text \<open>\<^verbatim>\<open>s.charAt(i)\<close>: the empty string when \<open>i\<close> is out of range.\<close>

definition charAt :: "string \<Rightarrow> nat \<Rightarrow> string" where
  "charAt s i = (if i < length s then [s ! i] else [])"

text \<open>
  The random source is the stream of the indices that the successive draws compute, the
  values of \<^verbatim>\<open>Math.floor(Math.random() * chars.length)\<close> as the program rounds them; since
  \<^verbatim>\<open>Math.random()\<close> is below 1, each is below \<^verbatim>\<open>chars.length\<close>. \<open>drawCode n code rnd\<close>
  is the \<^verbatim>\<open>for\<close> loop with \<open>n\<close> iterations left: each appends \<^verbatim>\<open>chars.charAt\<close> of the
  next index.
\<close>

fun drawCode :: "nat \<Rightarrow> string \<Rightarrow> nat stream \<Rightarrow> string \<times> nat stream" where
  "drawCode 0 code rnd = (code, rnd)"
| "drawCode (Suc n) code rnd = drawCode n (code @ charAt chars (shd rnd)) (stl rnd)"

text \<open>The \<^verbatim>\<open>do ... while (SessionManager.get(code))\<close> loop; \<open>None\<close> when it never ends.\<close>

partial_function (option) generateSessionCode ::
  "appState \<Rightarrow> nat stream \<Rightarrow> (string \<times> nat stream) option" where
  "generateSessionCode st rnd =
     (case drawCode 8 [] rnd of
        (code, rnd') \<Rightarrow>
          if SessionManager_get code st \<noteq> None then generateSessionCode st rnd'
          else Some (code, rnd'))"

definition createSession ::
  "config \<Rightarrow> int \<Rightarrow> nat stream \<Rightarrow> appState \<Rightarrow> (session \<times> appState \<times> nat stream) option" where
  "createSession cfg dateNow rnd st =
     (case generateSessionCode st rnd of
        None \<Rightarrow> None
      | Some (ident, rnd') \<Rightarrow>
          let s = \<lparr>id_session = ident,
                   mode = mode_config cfg,
                   question = orNull (question_config cfg),
                   optionA = orNull (optionA_config cfg),
                   optionB = orNull (optionB_config cfg),
                   timeout = timeout_config cfg,
                   createdAt = dateNow,
                   isActive = True,
                   participants = [],
                   messages = [],
                   autoCloseTimer = None\<rparr>;
              st1 = SessionManager_save ident s st
          in Some (s, st1\<lparr>events := events st1 @ [SessionCreated ident s]\<rparr>, rnd'))"

text \<open>The \<open>k\<close>-th candidate code that \<open>generateSessionCode\<close> draws from the random source:
  each candidate takes eight draws.\<close>

definition candidate :: "nat stream \<Rightarrow> nat \<Rightarrow> string" where
  "candidate rnd k = fst (drawCode 8 [] (sdrop (8 * k) rnd))"

text \<open>
  The first revision (lines 62 to 68 and 103 to 122): the candidate is
  \<^verbatim>\<open>Math.random().toString(36).substring(2, 10).toUpperCase()\<close>, checked with
  \<^verbatim>\<open>AppState.sessions.has(code)\<close>. Its random source is the stream of the strings
  \<^verbatim>\<open>Math.random().toString(36)\<close>, such as \<^verbatim>\<open>0.i\<close> for 0.5.
\<close>

definition substring :: "string \<Rightarrow> nat \<Rightarrow> nat \<Rightarrow> string" where
  "substring s i j = take (max i j - min i j) (drop (min i j) s)"

partial_function (option) generateSessionCode_rev1 ::
  "(string \<times> session) list \<Rightarrow> string stream \<Rightarrow> (string \<times> string stream) option" where
  "generateSessionCode_rev1 ss rnd =
     (let code = toUpperCase (substring (shd rnd) 2 10)
      in if map_of ss code \<noteq> None then generateSessionCode_rev1 ss (stl rnd)
         else Some (code, stl rnd))"

definition createSession_rev1 ::
  "config \<Rightarrow> int \<Rightarrow> string stream \<Rightarrow> (string \<times> session) list \<Rightarrow>
   (session \<times> (string \<times> session) list \<times> string stream) option" where
  "createSession_rev1 cfg dateNow rnd ss =
     (case generateSessionCode_rev1 ss rnd of
        None \<Rightarrow> None
      | Some (ident, rnd') \<Rightarrow>
          let s = \<lparr>id_session = ident,
                   mode = mode_config cfg,
                   question = orNull (question_config cfg),
                   optionA = orNull (optionA_config cfg),
                   optionB = orNull (optionB_config cfg),
                   timeout = timeout_config cfg,
                   createdAt = dateNow,
                   isActive = True,
                   participants = [],
                   messages = [],
                   autoCloseTimer = None\<rparr>
          in Some (s, AList.update ident s ss, rnd'))"

section \<open>Router and student views\<close>

datatype route =
    RLanding
  | RTeacherDashboard
  | RCreateSession
  | RMonitor string
  | RReview string
  | RStudentLanding string
  | RStudentJoin
  | RComposer string
  | RSubmitted string

text \<open>\<^verbatim>\<open>params[i]\<close>: \<open>None\<close> is \<^verbatim>\<open>undefined\<close>; a value is truthy when it is a
  string that is not empty.\<close>

definition param :: "string list \<Rightarrow> nat \<Rightarrow> string option" where
  "param params i = (if i < length params then Some (params ! i) else None)"

definition truthy :: "string option \<Rightarrow> bool" where
  "truthy v = (case v of None \<Rightarrow> False | Some s \<Rightarrow> s \<noteq> [])"

text \<open>\<^verbatim>\<open>handleRoute\<close> on \<open>parts\<close>, the fragment after \<^verbatim>\<open>#/\<close> split at \<^verbatim>\<open>/\<close>; the
  result names the renderer that is called and its argument.\<close>

definition handleRoute :: "string list \<Rightarrow> route" where
  "handleRoute parts =
     (let path = (case parts of [] \<Rightarrow> [] | p # _ \<Rightarrow> p);
          params = tl parts
      in if path = [] then RLanding
         else if path = ''teacher'' then
           (if param params 0 = Some ''dashboard'' then RTeacherDashboard
            else if param params 0 = Some ''create'' then RCreateSession
            else if param params 0 = Some ''monitor'' \<and> truthy (param params 1)
              then RMonitor (toUpperCase (the (param params 1)))
            else if param params 0 = Some ''review'' \<and> truthy (param params 1)
              then RReview (toUpperCase (the (param params 1)))
            else RTeacherDashboard)
         else if path = ''join'' then
           (if truthy (param params 0)
            then RStudentLanding (toUpperCase (trim (the (param params 0))))
            else RStudentJoin)
         else if path = ''student'' then
           (if param params 0 = Some ''compose'' \<and> truthy (param params 1)
              then RComposer (toUpperCase (the (param params 1)))
            else if param params 0 = Some ''submitted'' \<and> truthy (param params 1)
              then RSubmitted (toUpperCase (the (param params 1)))
            else RStudentJoin)
         else RLanding)"

text \<open>\<^verbatim>\<open>session.messages.some(m => m.participantId === AppState.socketId)\<close>.\<close>

definition hasSubmitted :: "session \<Rightarrow> string \<Rightarrow> bool" where
  "hasSubmitted s pid = list_ex (\<lambda>m. participantId m = pid) (messages s)"

text \<open>What \<^verbatim>\<open>renderStudentLanding\<close> does: one of its four early returns (each a toast or
  a redirect), or the welcome page with the participant count it shows.\<close>

datatype landing =
    LandingNotFound
  | LandingEnded
  | LandingFull
  | LandingSubmitted
  | LandingWelcome nat
  | LandingTypeError

definition renderStudentLanding :: "string \<Rightarrow> appState \<Rightarrow> landing \<times> appState" where
  "renderStudentLanding sessionId st =
     (case getSession sessionId st of
        (None, st1) \<Rightarrow> (LandingNotFound, st1)
      | (Some s, st1) \<Rightarrow>
          if \<not> isActive s then (LandingEnded, st1)
          else if length (participants s) \<ge> 100 then (LandingFull, st1)
          else if hasSubmitted s (socketId st1) then (LandingSubmitted, st1)
          else
            let st2 = snd (SessionManager_addParticipant sessionId (socketId st1) st1);
                st3 = st2\<lparr>events := events st2 @ [ParticipantJoined sessionId (socketId st2)]\<rparr>
            in (case getSession sessionId st3 of
                  (Some updatedSession, st4) \<Rightarrow>
                    (LandingWelcome (length (participants updatedSession)), st4)
                | (None, st4) \<Rightarrow> (LandingTypeError, st4)))"

datatype composer = ComposerNotAvailable | ComposerSubmitted | ComposerForm

definition renderComposer :: "string \<Rightarrow> appState \<Rightarrow> composer \<times> appState" where
  "renderComposer sessionId st =
     (case getSession sessionId st of
        (None, st1) \<Rightarrow> (ComposerNotAvailable, st1)
      | (Some s, st1) \<Rightarrow>
          if \<not> isActive s then (ComposerNotAvailable, st1)
          else if hasSubmitted s (socketId st1) then (ComposerSubmitted, st1)
          else (ComposerForm, st1))"

text \<open>The composer form as \<^verbatim>\<open>handleSubmitMessage\<close> reads it: the two text fields, the
  check box and \<^verbatim>\<open>window.selectedOption\<close>.\<close>

record form =
  messageText_form :: string
  studentName_form :: string
  anonymous_form :: bool
  selectedOption_form :: "string option"

datatype submit =
    SubmitNotFound
  | SubmitEmpty
  | SubmitTooLong
  | SubmitNoOption
  | SubmitSent
  | SubmitFailed

definition handleSubmitMessage :: "env \<Rightarrow> string \<Rightarrow> form \<Rightarrow> appState \<Rightarrow> submit \<times> appState" where
  "handleSubmitMessage e sessionId f st =
     (case getSession sessionId st of
        (None, st1) \<Rightarrow> (SubmitNotFound, st1)
      | (Some s, st1) \<Rightarrow>
          let text = trim (messageText_form f);
              name = trim (studentName_form f)
          in if text = [] then (SubmitEmpty, st1)
             else if countWords text > 100 then (SubmitTooLong, st1)
             else if mode s = Question \<and> \<not> truthy (selectedOption_form f) then (SubmitNoOption, st1)
             else
               let inp = \<lparr>messageText_input = text,
                          studentName_input = (if anonymous_form f then None else Some name),
                          isAnonymous_input = anonymous_form f,
                          selectedOption_input = orNull (selectedOption_form f)\<rparr>
               in (case addMessage e sessionId inp st1 of
                     (True, st2) \<Rightarrow> (SubmitSent, st2)
                   | (False, st2) \<Rightarrow> (SubmitFailed, st2)))"

section \<open>CSV export\<close>

definition digitChar :: "nat \<Rightarrow> char" where
  "digitChar d = ''0123456789'' ! d"

text \<open>A number that is a count, as a template literal prints it.\<close>

fun numberToString :: "nat \<Rightarrow> string" where
  "numberToString n =
     (if n < 10 then [digitChar n] else numberToString (n div 10) @ [digitChar (n mod 10)])"

text \<open>\<^verbatim>\<open>s.replace(/"/g, '""')\<close>.\<close>

fun replaceQuotes :: "string \<Rightarrow> string" where
  "replaceQuotes [] = []"
| "replaceQuotes (c # cs) =
     (if c = CHR 0x22 then CHR 0x22 # CHR 0x22 # replaceQuotes cs else c # replaceQuotes cs)"

text \<open>
  One iteration of the \<^verbatim>\<open>forEach\<close> of \<^verbatim>\<open>exportMessages\<close>: the text appended to
  \<^verbatim>\<open>csv\<close>. \<open>toISOString\<close> stands for \<^verbatim>\<open>new Date(t).toISOString()\<close> of the platform.
\<close>

definition csvRow :: "(int \<Rightarrow> string) \<Rightarrow> message \<Rightarrow> string" where
  "csvRow toISOString msg =
     (let timestampv = toISOString (timestamp msg);
          name = (if isAnonymous msg then ''Anonymous''
                  else (case orNull (studentName msg) of Some n \<Rightarrow> n | None \<Rightarrow> ''Unknown''));
          anonymous = (if isAnonymous msg then ''Yes'' else ''No'');
          option = (case orNull (selectedOption msg) of Some opt \<Rightarrow> opt | None \<Rightarrow> ''N/A'');
          messagev = [CHR 0x22] @ replaceQuotes (messageText msg) @ [CHR 0x22];
          wordCountv = numberToString (wordCount msg)
      in timestampv @ '','' @ name @ '','' @ anonymous @ '','' @ option @ '','' @ messagev @
         '','' @ wordCountv @ [CHR 0x0A])"

text \<open>The result is the text handed to the \<^verbatim>\<open>Blob\<close>, or \<open>None\<close> after the toast
  \<^verbatim>\<open>No messages to export\<close>.\<close>

definition exportMessages :: "(int \<Rightarrow> string) \<Rightarrow> string \<Rightarrow> appState \<Rightarrow> string option \<times> appState" where
  "exportMessages toISOString sessionId st =
     (case getSession sessionId st of
        (None, st1) \<Rightarrow> (None, st1)
      | (Some s, st1) \<Rightarrow>
          if length (messages s) = 0 then (None, st1)
          else
            (Some (fold (\<lambda>msg csv. csv @ csvRow toISOString msg) (messages s)
                     (''Timestamp,Name,Anonymous,Option,Message,Word Count'' @ [CHR 0x0A])),
             st1))"

subsection \<open>The CSV text as specified\<close>

text \<open>
  The CSV text in the words of the specification: a header line, then one line per
  message in insertion order; a line is its six fields joined by commas.
\<close>

fun joinWith :: "string \<Rightarrow> string list \<Rightarrow> string" where
  "joinWith sep [] = []"
| "joinWith sep [x] = x"
| "joinWith sep (x # y # zs) = x @ sep @ joinWith sep (y # zs)"

definition quoteField_spec :: "string \<Rightarrow> string" where
  "quoteField_spec text =
     [CHR 0x22] @ concat (map (\<lambda>c. if c = CHR 0x22 then [CHR 0x22, CHR 0x22] else [c]) text) @ [CHR 0x22]"

definition nameField_spec :: "message \<Rightarrow> string" where
  "nameField_spec m =
     (if isAnonymous m then ''Anonymous''
      else (case studentName m of
              None \<Rightarrow> ''Unknown''
            | Some n \<Rightarrow> if n = [] then ''Unknown'' else n))"

definition csvFields_spec :: "(int \<Rightarrow> string) \<Rightarrow> message \<Rightarrow> string list" where
  "csvFields_spec toISOString m =
     [toISOString (timestamp m),
      nameField_spec m,
      (if isAnonymous m then ''Yes'' else ''No''),
      (case selectedOption m of None \<Rightarrow> ''N/A'' | Some opt \<Rightarrow> if opt = [] then ''N/A'' else opt),
      quoteField_spec (messageText m),
      numberToString (wordCount m)]"

definition csvLines_spec :: "(int \<Rightarrow> string) \<Rightarrow> message list \<Rightarrow> string list" where
  "csvLines_spec toISOString msgs =
     ''Timestamp,Name,Anonymous,Option,Message,Word Count'' #
     map (\<lambda>m. joinWith '','' (csvFields_spec toISOString m)) msgs"

definition csv_spec :: "(int \<Rightarrow> string) \<Rightarrow> message list \<Rightarrow> string" where
  "csv_spec toISOString msgs = concat (map (\<lambda>line. line @ [CHR 0x0A]) (csvLines_spec toISOString msgs))"

section \<open>Ocean scene\<close>

record bottle =
  position_bottle :: position
  userData_message :: message
  userData_initialY :: real
  userData_phaseOffset :: real

text \<open>The module variables of the scene: the pool \<^verbatim>\<open>bottles\<close>, the groups added to
  \<^verbatim>\<open>scene\<close>, the flag \<^verbatim>\<open>clickableBottles\<close>, and the results of the calls of
  \<^verbatim>\<open>Math.random()\<close> still to come.\<close>

record ocean =
  bottles :: "bottle list"
  scene :: "bottle list"
  clickableBottles :: bool
  random :: "real stream"

definition createBottle :: "message \<Rightarrow> nat \<Rightarrow> ocean \<Rightarrow> ocean" where
  "createBottle msg index oc =
     (let pos = bottlePosition msg;
          group = \<lparr>position_bottle = \<lparr>pos_x = pos_x pos, pos_y = pos_y pos + 1, pos_z = pos_z pos\<rparr>,
                   userData_message = msg,
                   userData_initialY = pos_y pos + 1,
                   userData_phaseOffset = shd (random oc) * pi * 2\<rparr>
      in oc\<lparr>bottles := bottles oc @ [group],
            scene := scene oc @ [group],
            random := stl (random oc)\<rparr>)"

text \<open>\<^verbatim>\<open>bottles.some(b => b.userData.message.id === message.id)\<close>.\<close>

definition bottleExists :: "ocean \<Rightarrow> message \<Rightarrow> bool" where
  "bottleExists oc msg = list_ex (\<lambda>b. id_message (userData_message b) = id_message msg) (bottles oc)"

text \<open>The \<^verbatim>\<open>forEach\<close> of \<^verbatim>\<open>updateOceanBottles\<close> from index \<open>index\<close> on.\<close>

fun updateLoop :: "message list \<Rightarrow> nat \<Rightarrow> ocean \<Rightarrow> ocean" where
  "updateLoop [] index oc = oc"
| "updateLoop (msg # rest) index oc =
     updateLoop rest (Suc index)
       (if \<not> bottleExists oc msg \<and> (\<not> isRead msg \<or> \<not> clickableBottles oc)
        then createBottle msg index oc else oc)"

definition updateOceanBottles :: "message list \<Rightarrow> ocean \<Rightarrow> ocean" where
  "updateOceanBottles msgs oc = updateLoop msgs 0 oc"

section \<open>Properties of the store\<close>

text \<open>At most one message per participant identifier: in a session, and in every stored
  session.\<close>

definition onePerParticipant :: "session \<Rightarrow> bool" where
  "onePerParticipant s = (\<forall>p. count_list (map participantId (messages s)) p \<le> 1)"

definition storeOnePerParticipant :: "appState \<Rightarrow> bool" where
  "storeOnePerParticipant st =
     (\<forall>c s. map_of (globalSessions st) c = Some s \<longrightarrow> onePerParticipant s)"

text \<open>The shape of the store after \<^verbatim>\<open>init\<close>: the codes of \<^verbatim>\<open>window.globalSessions\<close> are the
  keys of an object, so pairwise different, and \<^verbatim>\<open>AppState.sessions\<close> holds the same
  sessions under the same codes.\<close>

definition mirrored :: "appState \<Rightarrow> bool" where
  "mirrored st =
     (distinct (map fst (globalSessions st)) \<and> map_of (sessions st) = map_of (globalSessions st))"

section \<open>Example values\<close>

text \<open>A store with one open session, closed and full variants of it, and the inputs of the
  examples below.\<close>

definition session0 :: session where
  "session0 = \<lparr>id_session = ''ABCD1234'', mode = Free, question = None, optionA = None,
     optionB = None, timeout = 120, createdAt = 1000, isActive = True, participants = [],
     messages = [], autoCloseTimer = None\<rparr>"

definition state0 :: appState where
  "state0 = \<lparr>globalSessions = [(''ABCD1234'', session0)], sessions = [(''ABCD1234'', session0)],
     socketId = ''socket_a1'', events = []\<rparr>"

definition env0 :: env where
  "env0 = \<lparr>generatedId = ''msg_k3x91'', now = 5000, generatedColor = ''hsl(200, 60%, 70%)''\<rparr>"

definition input0 :: messageInput where
  "input0 = \<lparr>messageText_input = ''hello sea'', studentName_input = None,
     isAnonymous_input = True, selectedOption_input = None\<rparr>"

definition message0 :: message where
  "message0 = messageObj env0 input0 ''socket_a1'' 0"

definition fullSession :: session where
  "fullSession = session0\<lparr>messages := replicate 100 message0, participants := [''socket_a1'']\<rparr>"

definition fullState :: appState where
  "fullState = state0\<lparr>globalSessions := [(''ABCD1234'', fullSession)],
     sessions := [(''ABCD1234'', fullSession)]\<rparr>"

definition closedSession :: session where
  "closedSession = session0\<lparr>isActive := False\<rparr>"

definition closedState :: appState where
  "closedState = \<lparr>globalSessions = [(''ABCD1234'', closedSession)],
     sessions = [(''ABCD1234'', closedSession)],
     socketId = ''socket_a1'', events = [SessionsUpdated, SessionClosed ''ABCD1234'']\<rparr>"

definition env1 :: env where
  "env1 = \<lparr>generatedId = ''msg_q7r02'', now = 6000, generatedColor = ''hsl(10, 60%, 70%)''\<rparr>"

definition form0 :: form where
  "form0 = \<lparr>messageText_form = ''hello sea'', studentName_form = '''', anonymous_form = True,
     selectedOption_form = None\<rparr>"

definition hundred :: "string list" where
  "hundred = map (\<lambda>n. ''socket_'' @ replicate n CHR ''x'') [0..<100]"

definition crowdedSession :: session where
  "crowdedSession = session0\<lparr>participants := hundred\<rparr>"

definition crowdedState :: appState where
  "crowdedState = state0\<lparr>globalSessions := [(''ABCD1234'', crowdedSession)],
     sessions := [(''ABCD1234'', crowdedSession)]\<rparr>"

definition oldClosed :: session where
  "oldClosed = session0\<lparr>id_session := ''OLD00001'', createdAt := 10000000, isActive := False\<rparr>"

definition recentClosed :: session where
  "recentClosed = session0\<lparr>id_session := ''NEW00001'', createdAt := 96400000, isActive := False\<rparr>"

definition oldActive :: session where
  "oldActive = session0\<lparr>id_session := ''ACT00001'', createdAt := 10000000\<rparr>"

definition sweepState :: appState where
  "sweepState = \<lparr>globalSessions = [(''OLD00001'', oldClosed), (''NEW00001'', recentClosed),
       (''ACT00001'', oldActive)],
     sessions = [(''OLD00001'', oldClosed), (''NEW00001'', recentClosed), (''ACT00001'', oldActive)],
     socketId = ''socket_a1'', events = []\<rparr>"

definition occupiedState :: appState where
  "occupiedState = state0\<lparr>globalSessions := [(''AAAAAAAA'', session0\<lparr>id_session := ''AAAAAAAA''\<rparr>)],
     sessions := [(''AAAAAAAA'', session0\<lparr>id_session := ''AAAAAAAA''\<rparr>)]\<rparr>"

definition randomAB :: "nat stream" where
  "randomAB = shift (replicate 8 0) (sconst 1)"

definition config0 :: config where
  "config0 = \<lparr>mode_config = Question, question_config = Some ''Cats or dogs?'',
     optionA_config = Some ''Cats'', optionB_config = Some ''Dogs'', timeout_config = 120\<rparr>"

definition message1 :: message where
  "message1 = message0\<lparr>id_message := ''msg_1''\<rparr>"

definition message2 :: message where
  "message2 = message0\<lparr>id_message := ''msg_2'', bottlePosition := generateBottlePosition 1\<rparr>"

definition message3 :: message where
  "message3 = message0\<lparr>id_message := ''msg_3'', isRead := True,
     bottlePosition := generateBottlePosition 2\<rparr>"

definition bottle1 :: bottle where
  "bottle1 = \<lparr>position_bottle = \<lparr>pos_x = 5, pos_y = 1, pos_z = 0\<rparr>, userData_message = message1,
     userData_initialY = 1, userData_phaseOffset = 0\<rparr>"

definition ocean0 :: ocean where
  "ocean0 = \<lparr>bottles = [bottle1], scene = [bottle1], clickableBottles = True,
     random = sconst (1 / 4)\<rparr>"

text \<open>\<^verbatim>\<open>toISOString\<close> for the timestamps of the first day of 1970, \<open>0 \<le> t < 86400000\<close>.\<close>

definition toISOString_1970 :: "int \<Rightarrow> string" where
  "toISOString_1970 t =
     (let n = nat t;
          two = (\<lambda>k. [digitChar (k div 10 mod 10), digitChar (k mod 10)]);
          three = (\<lambda>k. [digitChar (k div 100 mod 10), digitChar (k div 10 mod 10), digitChar (k mod 10)])
      in ''1970-01-01T'' @ two (n div 3600000) @ '':'' @ two (n div 60000 mod 60) @ '':'' @
         two (n div 1000 mod 60) @ ''.'' @ three (n mod 1000) @ ''Z'')"

definition quoteInput :: messageInput where
  "quoteInput = \<lparr>messageText_input = ''He said '' @ [CHR 0x22] @ ''hi'' @ [CHR 0x22],
     studentName_input = None, isAnonymous_input = True, selectedOption_input = None\<rparr>"

definition quoteSession :: session where
  "quoteSession = session0\<lparr>messages := [messageObj env0 quoteInput ''socket_a1'' 0],
     participants := [''socket_a1'']\<rparr>"

definition quoteState :: appState where
  "quoteState = state0\<lparr>globalSessions := [(''ABCD1234'', quoteSession)],
     sessions := [(''ABCD1234'', quoteSession)]\<rparr>"

definition tostringSession :: session where
  "tostringSession = session0\<lparr>id_session := ''TOSTRING''\<rparr>"

definition tostringState :: appState where
  "tostringState = state0\<lparr>globalSessions := [(''TOSTRING'', tostringSession)],
     sessions := [(''TOSTRING'', tostringSession)]\<rparr>"

section \<open>The store operations, step by step\<close>

lemma getSession_Some:
  "map_of (globalSessions st) c = Some s \<Longrightarrow>
   getSession c st = (Some s, st\<lparr>sessions := AList.update c s (sessions st)\<rparr>)"
  by (simp add: getSession_def SessionManager_get_def)

lemma getSession_None:
  "map_of (globalSessions st) c = None \<Longrightarrow> getSession c st = (None, st)"
  by (simp add: getSession_def SessionManager_get_def)

lemma addMessage_full:
  "map_of (globalSessions st) c = Some s \<Longrightarrow> length (messages s) \<ge> 100 \<Longrightarrow>
   addMessage e c inp st = (False, st\<lparr>sessions := AList.update c s (sessions st)\<rparr>)"
  by (simp add: addMessage_def getSession_Some)

lemma addMessage_ok:
  assumes "map_of (globalSessions st) c = Some s" "length (messages s) < 100"
  shows "addMessage e c inp st =
     (True,
      (let m = messageObj e inp (socketId st) (length (messages s));
           s' = s\<lparr>messages := messages s @ [m],
                   participants := (if socketId st \<in> set (participants s) then participants s
                                    else participants s @ [socketId st])\<rparr>
       in st\<lparr>globalSessions := AList.update c s' (globalSessions st),
             sessions := AList.update c s' (sessions st),
             events := events st @
               (if socketId st \<in> set (participants s) then [SessionsUpdated]
                else [SessionsUpdated, SessionsUpdated]) @
               [MessageAdded c m, MessageSubmitted c m]\<rparr>))"
  using assms
  by (simp add: addMessage_def getSession_Some SessionManager_addMessage_def SessionManager_get_def
      SessionManager_save_def SessionManager_addParticipant_def Let_def AList.update_conv')

lemma closeSession_Some:
  "map_of (globalSessions st) c = Some s \<Longrightarrow>
   closeSession c st =
     st\<lparr>globalSessions := AList.update c (s\<lparr>isActive := False\<rparr>) (globalSessions st),
        sessions := AList.update c (s\<lparr>isActive := False\<rparr>) (sessions st),
        events := events st @ [SessionsUpdated, SessionClosed c]\<rparr>"
  by (simp add: closeSession_def getSession_Some SessionManager_save_def Let_def)

lemma closeSession_state0: "closeSession ''ABCD1234'' state0 = closedState"
proof -
  have "map_of (globalSessions state0) ''ABCD1234'' = Some session0"
    by (simp add: state0_def)
  then show ?thesis
    by (simp add: closeSession_Some) (simp add: state0_def closedState_def closedSession_def)
qed

lemma renderComposer_inactive:
  "map_of (globalSessions st) c = Some s \<Longrightarrow> \<not> isActive s \<Longrightarrow>
   renderComposer c st = (ComposerNotAvailable, st\<lparr>sessions := AList.update c s (sessions st)\<rparr>)"
  by (simp add: renderComposer_def getSession_Some)

lemma renderStudentLanding_inactive:
  "map_of (globalSessions st) c = Some s \<Longrightarrow> \<not> isActive s \<Longrightarrow>
   renderStudentLanding c st = (LandingEnded, st\<lparr>sessions := AList.update c s (sessions st)\<rparr>)"
  by (simp add: renderStudentLanding_def getSession_Some)

text \<open>Every operation of the store keeps that shape.\<close>

lemma mirrored_save: "mirrored st \<Longrightarrow> mirrored (SessionManager_save c s st)"
  by (simp add: mirrored_def SessionManager_save_def AList.distinct_update AList.update_conv')

lemma mirrored_delete: "mirrored st \<Longrightarrow> mirrored (SessionManager_delete c st)"
  by (simp add: mirrored_def SessionManager_delete_def AList.distinct_delete AList.delete_conv')

lemma mirrored_getSession: "mirrored st \<Longrightarrow> mirrored (snd (getSession c st))"
  by (auto simp: mirrored_def getSession_def SessionManager_get_def AList.update_conv'
      map_upd_triv split: option.splits)

lemma mirrored_events: "mirrored st \<Longrightarrow> mirrored (st\<lparr>events := ev\<rparr>)"
  by (simp add: mirrored_def)

lemma mirrored_addParticipant:
  "mirrored st \<Longrightarrow> mirrored (snd (SessionManager_addParticipant c pid st))"
  by (simp add: SessionManager_addParticipant_def mirrored_save split: option.splits)

lemma mirrored_addMessage: "mirrored st \<Longrightarrow> mirrored (snd (addMessage e c inp st))"
proof -
  assume m: "mirrored st"
  show ?thesis
  proof (cases "map_of (globalSessions st) c")
    case None
    then show ?thesis using m by (simp add: addMessage_def getSession_None)
  next
    case (Some s)
    have m1: "mirrored (st\<lparr>sessions := AList.update c s (sessions st)\<rparr>)"
      using mirrored_getSession [OF m, of c] by (simp add: getSession_Some [OF Some])
    show ?thesis
    proof (cases "length (messages s) < 100")
      case False
      then show ?thesis using m1 by (simp add: addMessage_full [OF Some])
    next
      case True
      let ?st1 = "st\<lparr>sessions := AList.update c s (sessions st)\<rparr>"
      let ?m = "messageObj e inp (socketId ?st1) (length (messages s))"
      let ?st2 = "SessionManager_save c (s\<lparr>messages := messages s @ [?m]\<rparr>) ?st1"
      have "mirrored ?st2" using m1 by (rule mirrored_save)
      then have "mirrored (snd (SessionManager_addParticipant c (socketId ?st2) ?st2))"
        by (rule mirrored_addParticipant)
      then show ?thesis
        using True
        by (simp add: addMessage_def getSession_Some [OF Some] SessionManager_addMessage_def
            SessionManager_get_def Some Let_def mirrored_events)
    qed
  qed
qed

lemma mirrored_closeSession: "mirrored st \<Longrightarrow> mirrored (closeSession c st)"
proof (cases "map_of (globalSessions st) c")
  case None
  assume "mirrored st"
  with None show ?thesis by (simp add: closeSession_def getSession_None)
next
  case (Some s)
  assume "mirrored st"
  then have "mirrored (SessionManager_save c (s\<lparr>isActive := False\<rparr>) st)"
    by (rule mirrored_save)
  then show ?thesis
    by (simp add: closeSession_Some [OF Some] mirrored_def SessionManager_save_def)
qed

lemma mirrored_cleanupSessions: "mirrored st \<Longrightarrow> mirrored (cleanupSessions t st)"
proof -
  have "mirrored acc \<Longrightarrow>
      mirrored (fold (\<lambda>(ident, s) acc. if P s then SessionManager_delete ident acc else acc) xs acc)"
    for P :: "session \<Rightarrow> bool" and xs acc
    by (induction xs arbitrary: acc) (auto simp: mirrored_delete)
  then show "mirrored st \<Longrightarrow> mirrored (cleanupSessions t st)"
    unfolding cleanupSessions_def .
qed

lemma mirrored_createSession:
  "mirrored st \<Longrightarrow> createSession cfg t rnd st = Some (s, st', rnd') \<Longrightarrow> mirrored st'"
  by (auto simp: createSession_def Let_def mirrored_events mirrored_save split: option.splits)

lemma mirrored_lookup:
  "mirrored st \<Longrightarrow> map_of (sessions st) c = map_of (globalSessions st) c"
  by (simp add: mirrored_def)

section \<open>Verified properties\<close>

subsection \<open>Submission to inactive and to full sessions\<close>

text \<open>
  C1 at a failing input. After \<open>closeSession\<close> the session of \<open>state0\<close> is inactive and
  holds no message. \<open>addMessage\<close> on it returns \<open>True\<close> and stores the message with the
  sender registered, and \<open>handleSubmitMessage\<close>, from a composer that was opened before the
  session was closed, reports the message as sent; neither tests the active flag.
\<close>

theorem addMessage_inactive_accepted:
  "map_of (globalSessions closedState) ''ABCD1234'' = Some closedSession
   \<and> \<not> isActive closedSession
   \<and> messages closedSession = []
   \<and> closeSession ''ABCD1234'' state0 = closedState
   \<and> fst (addMessage env0 ''ABCD1234'' input0 closedState) = True
   \<and> map_of (globalSessions (snd (addMessage env0 ''ABCD1234'' input0 closedState))) ''ABCD1234''
       = Some (closedSession\<lparr>messages := [message0], participants := [''socket_a1'']\<rparr>)
   \<and> fst (handleSubmitMessage env0 ''ABCD1234'' form0 closedState) = SubmitSent"
proof -
  have g: "map_of (globalSessions closedState) ''ABCD1234'' = Some closedSession"
    by (simp add: closedState_def)
  have l: "length (messages closedSession) < 100"
    by (simp add: closedSession_def session0_def)
  have m: "messages closedSession = []" "participants closedSession = []"
    "mode closedSession = Free"
    by (simp_all add: closedSession_def session0_def)
  have p: "socketId closedState = ''socket_a1''"
    by (simp add: closedState_def)
  have tr: "trim ''hello sea'' = ''hello sea''"
    by (simp add: trim_def isSpace_def)
  have cw: "countWords ''hello sea'' = 2"
    by (simp add: countWords_def tr isSpace_def)
  have g1: "map_of (globalSessions (closedState\<lparr>sessions :=
        AList.update ''ABCD1234'' closedSession (sessions closedState)\<rparr>)) ''ABCD1234'' =
      Some closedSession"
    using g by simp
  have "\<not> isActive closedSession"
    by (simp add: closedSession_def)
  moreover have "fst (addMessage env0 ''ABCD1234'' input0 closedState) = True"
    by (simp add: addMessage_ok [OF g l] Let_def)
  moreover have
    "map_of (globalSessions (snd (addMessage env0 ''ABCD1234'' input0 closedState))) ''ABCD1234''
       = Some (closedSession\<lparr>messages := [message0], participants := [''socket_a1'']\<rparr>)"
    by (simp add: addMessage_ok [OF g l] Let_def AList.update_conv' m p message0_def)
  moreover have "fst (handleSubmitMessage env0 ''ABCD1234'' form0 closedState) = SubmitSent"
    by (simp add: handleSubmitMessage_def getSession_Some [OF g] form0_def tr cw Let_def m
        addMessage_ok [OF g1 l])
  ultimately show ?thesis
    using g m closeSession_state0 by simp
qed

text \<open>
  C2. For every stored session that holds exactly 100 messages, \<open>addMessage\<close> returns
  \<open>False\<close>; the stored sessions, the event log and the socket identifier are unchanged (no
  message appended, no participant registered, no event emitted). The one write is that of
  \<open>getSession\<close>, which puts the session it found into the map \<open>AppState.sessions\<close>
  under its code; when that map already holds the session there, as it does in every state
  the operations of the store reach (\<open>mirrored\<close>), the whole state is unchanged.
\<close>

theorem addMessage_full_rejected:
  assumes "map_of (globalSessions st) code = Some s" and "length (messages s) = 100"
  shows "fst (addMessage e code inp st) = False
       \<and> globalSessions (snd (addMessage e code inp st)) = globalSessions st
       \<and> events (snd (addMessage e code inp st)) = events st
       \<and> socketId (snd (addMessage e code inp st)) = socketId st
       \<and> map_of (sessions (snd (addMessage e code inp st))) = (map_of (sessions st))(code \<mapsto> s)
       \<and> (map_of (sessions st) code = Some s \<longrightarrow> snd (addMessage e code inp st) = st)
       \<and> (mirrored st \<longrightarrow> snd (addMessage e code inp st) = st)"
  using assms
  by (simp add: addMessage_full AList.update_conv' AList.update_triv mirrored_lookup)

theorem addMessage_full_rejected_witness:
  "map_of (globalSessions fullState) ''ABCD1234'' = Some fullSession
   \<and> length (messages fullSession) = 100
   \<and> mirrored fullState
   \<and> map_of (sessions fullState) ''ABCD1234'' = Some fullSession
   \<and> addMessage env0 ''ABCD1234'' input0 fullState = (False, fullState)"
proof -
  have a: "map_of (globalSessions fullState) ''ABCD1234'' = Some fullSession"
    by (simp add: fullState_def)
  have b: "length (messages fullSession) = 100"
    by (simp add: fullSession_def)
  have c: "map_of (sessions fullState) ''ABCD1234'' = Some fullSession"
    by (simp add: fullState_def)
  from addMessage_full_rejected [OF a b, of env0 input0] c
  have "fst (addMessage env0 ''ABCD1234'' input0 fullState) = False"
    and "snd (addMessage env0 ''ABCD1234'' input0 fullState) = fullState"
    by simp_all
  then have "addMessage env0 ''ABCD1234'' input0 fullState = (False, fullState)"
    by (simp add: prod_eq_iff)
  moreover have "mirrored fullState"
    by (simp add: mirrored_def fullState_def)
  ultimately show ?thesis using a b c by simp
qed

subsection \<open>One message per participant\<close>

lemma store_inv_update:
  assumes "storeOnePerParticipant st" "onePerParticipant s'"
    "globalSessions st' = AList.update c s' (globalSessions st)"
  shows "storeOnePerParticipant st'"
  using assms by (auto simp: storeOnePerParticipant_def AList.update_conv' split: if_splits)

lemma store_inv_same:
  "storeOnePerParticipant st \<Longrightarrow> globalSessions st' = globalSessions st \<Longrightarrow>
   storeOnePerParticipant st'"
  by (simp add: storeOnePerParticipant_def)

lemma store_inv_lookup:
  "storeOnePerParticipant st \<Longrightarrow> map_of (globalSessions st) c = Some s \<Longrightarrow> onePerParticipant s"
  by (auto simp: storeOnePerParticipant_def)

lemma hasSubmitted_iff: "hasSubmitted s p \<longleftrightarrow> p \<in> set (map participantId (messages s))"
  by (auto simp: hasSubmitted_def list_ex_iff)

lemma messageObj_participant [simp]: "participantId (messageObj e inp p n) = p"
  by (simp add: messageObj_def)

lemma onePer_append_new:
  assumes "onePerParticipant s" "\<not> hasSubmitted s (participantId m)"
  shows "onePerParticipant (s\<lparr>messages := messages s @ [m], participants := ps\<rparr>)"
  using assms by (auto simp: onePerParticipant_def hasSubmitted_iff)

lemma onePer_append_again:
  assumes "hasSubmitted s (participantId m)"
  shows "\<not> onePerParticipant (s\<lparr>messages := messages s @ [m], participants := ps\<rparr>)"
proof -
  have "count_list (map participantId (messages s)) (participantId m) \<noteq> 0"
    using assms by (simp add: hasSubmitted_iff count_list_0_iff)
  then have "count_list (map participantId (messages s @ [m])) (participantId m) \<ge> 2"
    by simp
  then show ?thesis
    by (auto simp: onePerParticipant_def intro!: exI [of _ "participantId m"])
qed

lemma addMessage_preserves:
  assumes inv: "storeOnePerParticipant st"
    and guard: "\<forall>s. map_of (globalSessions st) c = Some s \<longrightarrow> \<not> hasSubmitted s (socketId st)"
  shows "storeOnePerParticipant (snd (addMessage e c inp st))"
proof (cases "map_of (globalSessions st) c")
  case None
  then show ?thesis using inv by (simp add: addMessage_def getSession_None)
next
  case (Some s)
  show ?thesis
  proof (cases "length (messages s) < 100")
    case False
    with Some inv show ?thesis
      by (auto simp: addMessage_full intro: store_inv_same)
  next
    case True
    let ?m = "messageObj e inp (socketId st) (length (messages s))"
    let ?ps = "if socketId st \<in> set (participants s) then participants s
               else participants s @ [socketId st]"
    have "onePerParticipant s" using inv Some by (rule store_inv_lookup)
    moreover have "\<not> hasSubmitted s (participantId ?m)" using guard Some by simp
    ultimately have "onePerParticipant (s\<lparr>messages := messages s @ [?m], participants := ?ps\<rparr>)"
      by (rule onePer_append_new)
    moreover have "globalSessions (snd (addMessage e c inp st)) =
        AList.update c (s\<lparr>messages := messages s @ [?m], participants := ?ps\<rparr>) (globalSessions st)"
      by (simp add: addMessage_ok [OF Some True] Let_def)
    ultimately show ?thesis
      using inv store_inv_update by blast
  qed
qed

lemma addMessage_breaks:
  assumes "map_of (globalSessions st) c = Some s" "length (messages s) < 100"
    "hasSubmitted s (socketId st)"
  shows "\<not> storeOnePerParticipant (snd (addMessage e c inp st))"
proof
  assume a: "storeOnePerParticipant (snd (addMessage e c inp st))"
  let ?m = "messageObj e inp (socketId st) (length (messages s))"
  let ?ps = "if socketId st \<in> set (participants s) then participants s else participants s @ [socketId st]"
  have "map_of (globalSessions (snd (addMessage e c inp st))) c =
      Some (s\<lparr>messages := messages s @ [?m], participants := ?ps\<rparr>)"
    by (simp add: addMessage_ok [OF assms(1,2)] Let_def AList.update_conv')
  with a have "onePerParticipant (s\<lparr>messages := messages s @ [?m], participants := ?ps\<rparr>)"
    by (rule store_inv_lookup)
  moreover have "hasSubmitted s (participantId ?m)" using assms(3) by simp
  ultimately show False using onePer_append_again by blast
qed

lemma closeSession_preserves:
  assumes inv: "storeOnePerParticipant st"
  shows "storeOnePerParticipant (closeSession c st)"
proof (cases "map_of (globalSessions st) c")
  case None
  then show ?thesis using inv by (simp add: closeSession_def getSession_None)
next
  case (Some s)
  have "onePerParticipant (s\<lparr>isActive := False\<rparr>)"
    using store_inv_lookup [OF inv Some] by (simp add: onePerParticipant_def)
  then show ?thesis
    by (auto simp: closeSession_Some [OF Some] intro!: store_inv_update [OF inv])
qed

lemma markFirst_participants [simp]:
  "map participantId (markFirst mid ms) = map participantId ms"
  by (induction ms) simp_all

lemma markAsRead_preserves:
  assumes inv: "storeOnePerParticipant st"
  shows "storeOnePerParticipant (markAsRead c mid st)"
proof (cases "map_of (globalSessions st) c")
  case None
  then show ?thesis using inv by (simp add: markAsRead_def getSession_None)
next
  case (Some s)
  have "onePerParticipant (s\<lparr>messages := markFirst mid (messages s)\<rparr>)"
    using store_inv_lookup [OF inv Some] by (simp add: onePerParticipant_def)
  then have "storeOnePerParticipant
      (SessionManager_save c (s\<lparr>messages := markFirst mid (messages s)\<rparr>)
         (st\<lparr>sessions := AList.update c s (sessions st)\<rparr>))"
    by (auto simp: SessionManager_save_def intro!: store_inv_update [OF inv])
  moreover have "storeOnePerParticipant (st\<lparr>sessions := AList.update c s (sessions st)\<rparr>)"
    using inv by (rule store_inv_same) simp
  ultimately show ?thesis
    by (simp add: markAsRead_def getSession_Some [OF Some] split: option.splits)
qed

lemma addParticipant_preserves:
  assumes inv: "storeOnePerParticipant st"
  shows "storeOnePerParticipant (snd (SessionManager_addParticipant c pid st))"
proof (cases "map_of (globalSessions st) c")
  case None
  then show ?thesis using inv
    by (simp add: SessionManager_addParticipant_def SessionManager_get_def)
next
  case (Some s)
  have "onePerParticipant (s\<lparr>participants := participants s @ [pid]\<rparr>)"
    using store_inv_lookup [OF inv Some] by (simp add: onePerParticipant_def)
  then show ?thesis
    using inv Some
    by (auto simp: SessionManager_addParticipant_def SessionManager_get_def SessionManager_save_def
        intro!: store_inv_update [OF inv])
qed

lemma getSession_globalSessions [simp]:
  "globalSessions (snd (getSession c st)) = globalSessions st"
  by (simp add: getSession_def split: option.splits)

lemma getSession_socketId [simp]:
  "socketId (snd (getSession c st)) = socketId st"
  by (simp add: getSession_def split: option.splits)

lemma getSession_events [simp]:
  "events (snd (getSession c st)) = events st"
  by (simp add: getSession_def split: option.splits)

lemma getSession_fst [simp]:
  "fst (getSession c st) = map_of (globalSessions st) c"
  by (simp add: getSession_def SessionManager_get_def split: option.splits)

lemma delete_preserves:
  "storeOnePerParticipant st \<Longrightarrow> storeOnePerParticipant (SessionManager_delete c st)"
  by (auto simp: storeOnePerParticipant_def SessionManager_delete_def AList.delete_conv'
      split: if_splits)

lemma fold_delete_preserves:
  "storeOnePerParticipant acc \<Longrightarrow>
   storeOnePerParticipant
     (fold (\<lambda>(ident, s) acc. if P s then SessionManager_delete ident acc else acc) xs acc)"
  by (induction xs arbitrary: acc) (auto simp: delete_preserves)

lemma cleanupSessions_preserves:
  "storeOnePerParticipant st \<Longrightarrow> storeOnePerParticipant (cleanupSessions t st)"
  unfolding cleanupSessions_def by (rule fold_delete_preserves)

lemma renderStudentLanding_preserves:
  assumes inv: "storeOnePerParticipant st"
  shows "storeOnePerParticipant (snd (renderStudentLanding c st))"
proof -
  have g: "storeOnePerParticipant (snd (getSession c st))"
    using inv by (rule store_inv_same) simp
  let ?st1 = "snd (getSession c st)"
  let ?st2 = "snd (SessionManager_addParticipant c (socketId ?st1) ?st1)"
  let ?st3 = "?st2\<lparr>events := events ?st2 @ [ParticipantJoined c (socketId ?st2)]\<rparr>"
  have "storeOnePerParticipant ?st2" using g by (rule addParticipant_preserves)
  then have "storeOnePerParticipant ?st3" by (rule store_inv_same) simp
  then have "storeOnePerParticipant (snd (getSession c ?st3))" by (rule store_inv_same) simp
  then show ?thesis
    using g
    by (cases "getSession c st"; cases "getSession c ?st3")
       (auto simp: renderStudentLanding_def Let_def split: option.splits)
qed

lemma createSession_preserves:
  assumes inv: "storeOnePerParticipant st" and "createSession cfg t rnd st = Some (s, st', rnd')"
  shows "storeOnePerParticipant st'"
proof -
  from assms(2) obtain ident where
    s: "messages s = []" and st': "globalSessions st' = AList.update ident s (globalSessions st)"
    by (auto simp: createSession_def Let_def SessionManager_save_def split: option.splits)
  have "onePerParticipant s" by (simp add: onePerParticipant_def s)
  with inv show ?thesis using st' by (rule store_inv_update)
qed

lemma renderComposer_form:
  assumes "fst (renderComposer c st) = ComposerForm"
  shows "\<exists>s. map_of (globalSessions st) c = Some s \<and> isActive s \<and> \<not> hasSubmitted s (socketId st)
     \<and> snd (renderComposer c st) = st\<lparr>sessions := AList.update c s (sessions st)\<rparr>"
  using assms
  by (cases "map_of (globalSessions st) c")
     (auto simp: renderComposer_def getSession_None getSession_Some split: if_splits)

lemma snd_case_bool_pair:
  "snd (case p of (True, x) \<Rightarrow> (a, x) | (False, x) \<Rightarrow> (b, x)) = snd p"
  by (cases p) (simp split: bool.splits)

lemma handleSubmitMessage_preserves:
  assumes inv: "storeOnePerParticipant st"
    and guard: "\<forall>s. map_of (globalSessions st) c = Some s \<longrightarrow> \<not> hasSubmitted s (socketId st)"
  shows "storeOnePerParticipant (snd (handleSubmitMessage e c f st))"
proof (cases "map_of (globalSessions st) c")
  case None
  then show ?thesis using inv by (simp add: handleSubmitMessage_def getSession_None)
next
  case (Some s)
  let ?st1 = "st\<lparr>sessions := AList.update c s (sessions st)\<rparr>"
  have inv1: "storeOnePerParticipant ?st1" using inv by (rule store_inv_same) simp
  have guard1: "\<forall>s. map_of (globalSessions ?st1) c = Some s \<longrightarrow> \<not> hasSubmitted s (socketId ?st1)"
    using guard by simp
  have "storeOnePerParticipant (snd (addMessage e c inp ?st1))" for inp
    using inv1 guard1 by (rule addMessage_preserves)
  then show ?thesis
    using inv1
    by (simp add: handleSubmitMessage_def getSession_Some [OF Some] Let_def snd_case_bool_pair)
qed

lemma storeOnePerParticipant_state0: "storeOnePerParticipant state0"
  by (auto simp: storeOnePerParticipant_def onePerParticipant_def state0_def session0_def
      split: if_splits)

text \<open>
  C3, as stated, fails: \<open>addMessage\<close> does not look for an earlier message of the sender.
  Two calls from the same socket on the session of \<open>state0\<close> both succeed and leave two
  messages with the participant identifier \<open>socket_a1\<close>.
\<close>

theorem repeated_addMessage_counterexample:
  "storeOnePerParticipant state0
   \<and> fst (addMessage env0 ''ABCD1234'' input0 state0) = True
   \<and> fst (addMessage env1 ''ABCD1234'' input0 (snd (addMessage env0 ''ABCD1234'' input0 state0))) = True
   \<and> map (map participantId \<circ> messages \<circ> snd)
        (globalSessions
          (snd (addMessage env1 ''ABCD1234'' input0 (snd (addMessage env0 ''ABCD1234'' input0 state0)))))
       = [[''socket_a1'', ''socket_a1'']]
   \<and> count_list [''socket_a1'', ''socket_a1''] ''socket_a1'' = 2
   \<and> \<not> storeOnePerParticipant
        (snd (addMessage env1 ''ABCD1234'' input0 (snd (addMessage env0 ''ABCD1234'' input0 state0))))"
proof -
  let ?st1 = "snd (addMessage env0 ''ABCD1234'' input0 state0)"
  let ?s1 = "session0\<lparr>messages := [message0], participants := [''socket_a1'']\<rparr>"
  have g0: "map_of (globalSessions state0) ''ABCD1234'' = Some session0"
    by (simp add: state0_def)
  have l0: "length (messages session0) < 100"
    by (simp add: session0_def)
  have st1: "addMessage env0 ''ABCD1234'' input0 state0 =
      (True, \<lparr>globalSessions = [(''ABCD1234'', ?s1)], sessions = [(''ABCD1234'', ?s1)],
         socketId = ''socket_a1'',
         events = [SessionsUpdated, SessionsUpdated, MessageAdded ''ABCD1234'' message0,
                   MessageSubmitted ''ABCD1234'' message0]\<rparr>)"
    by (simp add: addMessage_ok [OF g0 l0] Let_def)
       (simp add: state0_def session0_def message0_def)
  have g1: "map_of (globalSessions ?st1) ''ABCD1234'' = Some ?s1"
    by (simp add: st1)
  have l1: "length (messages ?s1) < 100" by simp
  have h1: "hasSubmitted ?s1 (socketId ?st1)"
    by (simp add: st1 hasSubmitted_def message0_def)
  have a: "fst (addMessage env1 ''ABCD1234'' input0 ?st1) = True"
    by (simp add: addMessage_ok [OF g1 l1] Let_def)
  have b: "map (map participantId \<circ> messages \<circ> snd)
        (globalSessions (snd (addMessage env1 ''ABCD1234'' input0 ?st1)))
       = [[''socket_a1'', ''socket_a1'']]"
    by (simp add: addMessage_ok [OF g1 l1] Let_def) (simp add: st1 message0_def)
  have c: "\<not> storeOnePerParticipant (snd (addMessage env1 ''ABCD1234'' input0 ?st1))"
    using g1 l1 h1 by (rule addMessage_breaks)
  show ?thesis
    using storeOnePerParticipant_state0 st1 a b c by simp
qed

text \<open>
  C3, amended. In a store where every session holds at most one message per participant
  identifier, the property is kept by \<open>closeSession\<close>, \<open>markAsRead\<close>,
  \<open>SessionManager.addParticipant\<close>, \<open>SessionManager.delete\<close>, the expiry sweep,
  \<open>getSession\<close>, \<open>renderStudentLanding\<close> and \<open>createSession\<close>, and by \<open>addMessage\<close>
  when the sender has no message yet in the session. That is what \<open>renderComposer\<close>
  checks before it shows the form, so a submission (\<open>handleSubmitMessage\<close>) that follows
  a rendered form keeps it. An \<open>addMessage\<close> that succeeds for a sender who already has a
  message in the session breaks it.
\<close>

theorem onePerParticipant_guarded:
  assumes "storeOnePerParticipant st"
  shows "(fst (renderComposer code st) = ComposerForm \<longrightarrow>
            storeOnePerParticipant (snd (handleSubmitMessage e code f (snd (renderComposer code st)))))
    \<and> ((\<forall>s. map_of (globalSessions st) code = Some s \<longrightarrow> \<not> hasSubmitted s (socketId st)) \<longrightarrow>
            storeOnePerParticipant (snd (addMessage e code inp st)))
    \<and> (\<forall>s. map_of (globalSessions st) code = Some s \<and> length (messages s) < 100
             \<and> hasSubmitted s (socketId st) \<longrightarrow>
            \<not> storeOnePerParticipant (snd (addMessage e code inp st)))
    \<and> storeOnePerParticipant (closeSession code st)
    \<and> storeOnePerParticipant (markAsRead code messageId st)
    \<and> storeOnePerParticipant (snd (SessionManager_addParticipant code pid st))
    \<and> storeOnePerParticipant (SessionManager_delete code st)
    \<and> storeOnePerParticipant (cleanupSessions dateNow st)
    \<and> storeOnePerParticipant (snd (getSession code st))
    \<and> storeOnePerParticipant (snd (renderStudentLanding code st))
    \<and> (\<forall>s st' rnd'. createSession cfg dateNow rnd st = Some (s, st', rnd') \<longrightarrow>
            storeOnePerParticipant st')"
proof -
  have flow: "storeOnePerParticipant (snd (handleSubmitMessage e code f (snd (renderComposer code st))))"
    if "fst (renderComposer code st) = ComposerForm"
  proof -
    from renderComposer_form [OF that] obtain s where
      s: "map_of (globalSessions st) code = Some s" "\<not> hasSubmitted s (socketId st)"
        "snd (renderComposer code st) = st\<lparr>sessions := AList.update code s (sessions st)\<rparr>"
      by blast
    let ?st1 = "st\<lparr>sessions := AList.update code s (sessions st)\<rparr>"
    have "storeOnePerParticipant ?st1" using assms by (rule store_inv_same) simp
    moreover have "\<forall>s. map_of (globalSessions ?st1) code = Some s \<longrightarrow>
        \<not> hasSubmitted s (socketId ?st1)"
      using s by simp
    ultimately show ?thesis
      unfolding s(3) by (rule handleSubmitMessage_preserves)
  qed
  have get: "storeOnePerParticipant (snd (getSession code st))"
    using assms by (rule store_inv_same) simp
  show ?thesis
    using assms flow get
    by (simp add: addMessage_preserves addMessage_breaks closeSession_preserves
        markAsRead_preserves addParticipant_preserves delete_preserves cleanupSessions_preserves
        renderStudentLanding_preserves)
       (blast intro: createSession_preserves)
qed

theorem onePerParticipant_guarded_witness:
  "storeOnePerParticipant state0
   \<and> fst (renderComposer ''ABCD1234'' state0) = ComposerForm
   \<and> fst (handleSubmitMessage env0 ''ABCD1234'' form0 (snd (renderComposer ''ABCD1234'' state0)))
       = SubmitSent
   \<and> storeOnePerParticipant
       (snd (handleSubmitMessage env0 ''ABCD1234'' form0 (snd (renderComposer ''ABCD1234'' state0))))
   \<and> storeOnePerParticipant (closeSession ''ABCD1234'' state0)"
proof -
  have g0: "map_of (globalSessions state0) ''ABCD1234'' = Some session0"
    by (simp add: state0_def)
  have rc: "renderComposer ''ABCD1234'' state0 = (ComposerForm, state0)"
    by (simp add: renderComposer_def getSession_Some [OF g0])
       (simp add: session0_def state0_def hasSubmitted_def)
  have l0: "length (messages session0) < 100"
    by (simp add: session0_def)
  have tr: "trim ''hello sea'' = ''hello sea''"
    by (simp add: trim_def isSpace_def)
  have cw: "countWords ''hello sea'' = 2"
    by (simp add: countWords_def tr isSpace_def)
  have sent: "fst (handleSubmitMessage env0 ''ABCD1234'' form0 state0) = SubmitSent"
    by (simp add: handleSubmitMessage_def getSession_Some [OF g0] form0_def tr cw Let_def)
       (simp add: addMessage_def getSession_def SessionManager_get_def state0_def session0_def
          SessionManager_addMessage_def Let_def SessionManager_save_def)
  from onePerParticipant_guarded [OF storeOnePerParticipant_state0,
      of "''ABCD1234''" env0 form0] rc sent storeOnePerParticipant_state0
  show ?thesis by simp
qed

subsection \<open>Session lookup\<close>

lemma toUpperCase_example: "toUpperCase ''abcd1234'' = ''ABCD1234''"
  by (simp add: toUpperCase_def toUpperChar_def)

text \<open>An uppercased string holds neither \<open>e\<close> nor \<open>o\<close>, and every name of
  \<open>objectPrototype\<close> holds one of them: after uppercasing, the read of the store object
  never finds an inherited member.\<close>

lemma toUpperChar_not_small: "toUpperChar x \<noteq> CHR ''e'' \<and> toUpperChar x \<noteq> CHR ''o''"
proof (cases "x = CHR ''e'' \<or> x = CHR ''o''")
  case True
  then show ?thesis by (auto simp: toUpperChar_def)
next
  case False
  then show ?thesis by (simp add: toUpperChar_def split: option.splits if_splits)
qed

lemma toUpperCase_not_inherited: "toUpperCase c \<notin> set objectPrototype"
proof
  assume a: "toUpperCase c \<in> set objectPrototype"
  have "y \<noteq> CHR ''e'' \<and> y \<noteq> CHR ''o''" if "y \<in> set (toUpperCase c)" for y
  proof -
    from that obtain x where "y = toUpperChar x" by (auto simp: toUpperCase_def)
    then show ?thesis by (simp add: toUpperChar_not_small)
  qed
  then have "CHR ''e'' \<notin> set (toUpperCase c)" "CHR ''o'' \<notin> set (toUpperCase c)"
    by blast+
  moreover have "CHR ''e'' \<in> set n \<or> CHR ''o'' \<in> set n" if "n \<in> set objectPrototype" for n
    using that by (auto simp: objectPrototype_def)
  ultimately show False using a by blast
qed

lemma readGlobalSessions_stored:
  "map_of (globalSessions st) c = Some s \<Longrightarrow> readGlobalSessions c st = Some (Stored s)"
  by (simp add: readGlobalSessions_def)

lemma readGlobalSessions_uppercased:
  "readGlobalSessions (toUpperCase c) st = map_option Stored (SessionManager_get (toUpperCase c) st)"
  by (simp add: readGlobalSessions_def SessionManager_get_def toUpperCase_not_inherited
      split: option.splits)

text \<open>
  C4, as stated, fails: the lookup takes the string as it is. The lower-case spelling of
  the stored code \<open>ABCD1234\<close> equals the code after uppercasing, and neither the read of the
  store object nor \<open>getSession\<close> finds anything under it.
\<close>

theorem getSession_lowercase_counterexample:
  "map_of (globalSessions state0) ''ABCD1234'' = Some session0
   \<and> id_session session0 = ''ABCD1234''
   \<and> toUpperCase ''abcd1234'' = ''ABCD1234''
   \<and> readGlobalSessions ''abcd1234'' state0 = None
   \<and> fst (getSession ''abcd1234'' state0) = None"
  by (simp add: toUpperCase_example)
     (simp add: state0_def session0_def readGlobalSessions_def objectPrototype_def)

text \<open>
  C4, amended. The lookup does not change the case of the string it is given. The read of
  the store object gives the session stored under that very string; for a string without
  an entry it gives nothing, unless the string is a name of \<open>objectPrototype\<close>, for which
  it gives the inherited member and never a session. The uppercasing is done by the
  callers: for every stored session and every non-empty string \<open>c\<close> that equals the
  session's code after uppercasing, the read and \<open>getSession\<close> on the uppercased string
  return that session, and the router hands the uppercased string to the renderers of the
  routes monitor, review, compose and submitted (for join, the trimmed and uppercased
  string).
\<close>

theorem getSession_exact_router_uppercases:
  assumes "map_of (globalSessions st) code = Some s" and "toUpperCase c = code" and "c \<noteq> []"
  shows "readGlobalSessions (toUpperCase c) st = Some (Stored s)
    \<and> fst (getSession (toUpperCase c) st) = Some s
    \<and> (\<forall>s'. map_of (globalSessions st) c = Some s' \<longrightarrow>
          readGlobalSessions c st = Some (Stored s') \<and> fst (getSession c st) = Some s')
    \<and> (map_of (globalSessions st) c = None \<and> c \<notin> set objectPrototype \<longrightarrow>
          readGlobalSessions c st = None \<and> fst (getSession c st) = None)
    \<and> (map_of (globalSessions st) c = None \<and> c \<in> set objectPrototype \<longrightarrow>
          readGlobalSessions c st = Some (Inherited c))
    \<and> handleRoute [''teacher'', ''monitor'', c] = RMonitor code
    \<and> handleRoute [''teacher'', ''review'', c] = RReview code
    \<and> handleRoute [''student'', ''compose'', c] = RComposer code
    \<and> handleRoute [''student'', ''submitted'', c] = RSubmitted code
    \<and> handleRoute [''join'', c] = RStudentLanding (toUpperCase (trim c))"
  using assms
  by (simp add: handleRoute_def param_def truthy_def readGlobalSessions_def)

theorem getSession_exact_router_uppercases_witness:
  "map_of (globalSessions tostringState) ''TOSTRING'' = Some tostringSession
   \<and> toUpperCase ''toString'' = ''TOSTRING''
   \<and> readGlobalSessions ''toString'' tostringState = Some (Inherited ''toString'')
   \<and> readGlobalSessions ''TOSTRING'' tostringState = Some (Stored tostringSession)
   \<and> fst (getSession ''TOSTRING'' tostringState) = Some tostringSession
   \<and> handleRoute [''student'', ''compose'', ''toString''] = RComposer ''TOSTRING''
   \<and> handleRoute [''join'', ''toString''] = RStudentLanding ''TOSTRING''"
proof -
  have g: "map_of (globalSessions tostringState) ''TOSTRING'' = Some tostringSession"
    by (simp add: tostringState_def)
  have u: "toUpperCase ''toString'' = ''TOSTRING''"
    by (simp add: toUpperCase_def toUpperChar_def)
  have n: "map_of (globalSessions tostringState) ''toString'' = None"
    by (simp add: tostringState_def)
  have p: "''toString'' \<in> set objectPrototype"
    by (simp add: objectPrototype_def)
  have t: "trim ''toString'' = ''toString''"
    by (simp add: trim_def isSpace_def)
  from getSession_exact_router_uppercases [OF g u] g n p t u
  show ?thesis by simp
qed

subsection \<open>Participants\<close>

lemma addParticipant_Some:
  "map_of (globalSessions st) c = Some s \<Longrightarrow>
   SessionManager_addParticipant c pid st =
     (True, if pid \<notin> set (participants s)
            then st\<lparr>globalSessions := AList.update c (s\<lparr>participants := participants s @ [pid]\<rparr>) (globalSessions st),
                    sessions := AList.update c (s\<lparr>participants := participants s @ [pid]\<rparr>) (sessions st),
                    events := events st @ [SessionsUpdated]\<rparr>
            else st)"
  by (simp add: SessionManager_addParticipant_def SessionManager_get_def SessionManager_save_def)

lemma renderStudentLanding_full:
  "map_of (globalSessions st) c = Some s \<Longrightarrow> isActive s \<Longrightarrow> length (participants s) \<ge> 100 \<Longrightarrow>
   renderStudentLanding c st = (LandingFull, st\<lparr>sessions := AList.update c s (sessions st)\<rparr>)"
  by (simp add: renderStudentLanding_def getSession_Some)

lemma length_hundred: "length hundred = 100"
  by (simp add: hundred_def)

lemma newcomer_notin_hundred: "''newcomer'' \<notin> set hundred"
  by (auto simp: hundred_def)

lemma distinct_hundred: "distinct hundred"
  unfolding hundred_def
  by (subst distinct_map) (auto simp: inj_on_def dest: arg_cong [where f = length])

text \<open>
  C6, as stated, fails: \<open>SessionManager.addParticipant\<close> has no cap. On a session with
  100 distinct participants it returns \<open>True\<close> and stores the new identifier as the
  101st.
\<close>

theorem addParticipant_full_counterexample:
  "map_of (globalSessions crowdedState) ''ABCD1234'' = Some crowdedSession
   \<and> length (participants crowdedSession) = 100
   \<and> distinct (participants crowdedSession)
   \<and> fst (SessionManager_addParticipant ''ABCD1234'' ''newcomer'' crowdedState) = True
   \<and> map (participants \<circ> snd)
        (globalSessions (snd (SessionManager_addParticipant ''ABCD1234'' ''newcomer'' crowdedState)))
       = [hundred @ [''newcomer'']]
   \<and> length (hundred @ [''newcomer'']) = 101"
proof -
  have g: "map_of (globalSessions crowdedState) ''ABCD1234'' = Some crowdedSession"
    by (simp add: crowdedState_def)
  have p: "participants crowdedSession = hundred"
    by (simp add: crowdedSession_def)
  have d: "distinct hundred"
    by (rule distinct_hundred)
  show ?thesis
    using g d
    by (simp add: addParticipant_Some [OF g] p newcomer_notin_hundred length_hundred)
       (simp add: crowdedState_def)
qed

text \<open>
  C6, amended. For every stored session whose participant set has size 100,
  \<open>SessionManager.addParticipant\<close> returns \<open>True\<close>; an identifier already in the set
  leaves the state unchanged, a new one is inserted and the set has size 101. The cap is
  that of the view in front of it: \<open>renderStudentLanding\<close> on such a session reports it
  as full (as ended when it is inactive), adds nobody and emits no event.
\<close>

theorem addParticipant_uncapped_landing_gate:
  assumes "map_of (globalSessions st) code = Some s" and "length (participants s) = 100"
  shows "fst (SessionManager_addParticipant code pid st) = True
    \<and> (if pid \<in> set (participants s)
        then snd (SessionManager_addParticipant code pid st) = st
        else map_of (globalSessions (snd (SessionManager_addParticipant code pid st))) code =
               Some (s\<lparr>participants := participants s @ [pid]\<rparr>)
           \<and> length (participants s @ [pid]) = 101)
    \<and> fst (renderStudentLanding code st) = (if isActive s then LandingFull else LandingEnded)
    \<and> globalSessions (snd (renderStudentLanding code st)) = globalSessions st
    \<and> events (snd (renderStudentLanding code st)) = events st"
  using assms
  by (simp add: addParticipant_Some AList.update_conv' renderStudentLanding_full
      renderStudentLanding_inactive)

theorem addParticipant_uncapped_landing_gate_witness:
  "map_of (globalSessions crowdedState) ''ABCD1234'' = Some crowdedSession
   \<and> length (participants crowdedSession) = 100
   \<and> fst (renderStudentLanding ''ABCD1234'' crowdedState) = LandingFull
   \<and> globalSessions (snd (renderStudentLanding ''ABCD1234'' crowdedState)) = globalSessions crowdedState
   \<and> fst (SessionManager_addParticipant ''ABCD1234'' ''newcomer'' crowdedState) = True
   \<and> map_of (globalSessions (snd (SessionManager_addParticipant ''ABCD1234'' ''newcomer'' crowdedState)))
        ''ABCD1234'' = Some (crowdedSession\<lparr>participants := hundred @ [''newcomer'']\<rparr>)"
proof -
  have g: "map_of (globalSessions crowdedState) ''ABCD1234'' = Some crowdedSession"
    by (simp add: crowdedState_def)
  have p: "participants crowdedSession = hundred" "isActive crowdedSession"
    by (simp_all add: crowdedSession_def session0_def)
  have l: "length (participants crowdedSession) = 100"
    by (simp add: p length_hundred)
  from addParticipant_uncapped_landing_gate [OF g l, of "''newcomer''"] g l p newcomer_notin_hundred
  show ?thesis by simp
qed

subsection \<open>Expiry sweep\<close>

lemma delete_as_filter: "AList.delete k acc = filter (\<lambda>e. fst e \<noteq> k) acc"
  by (induction acc) auto

lemma fold_delete_filter:
  "fold (\<lambda>(k, s) acc. if P s then AList.delete k acc else acc) xs acc =
   filter (\<lambda>e. fst e \<notin> fst ` {e' \<in> set xs. P (snd e')}) acc"
proof (induction xs arbitrary: acc)
  case Nil
  then show ?case by simp
next
  case (Cons x xs)
  obtain k s where x: "x = (k, s)" by (cases x)
  show ?case
  proof (cases "P s")
    case True
    have "filter (\<lambda>e. fst e \<notin> fst ` {e' \<in> set xs. P (snd e')}) (filter (\<lambda>e. fst e \<noteq> k) acc) =
          filter (\<lambda>e. fst e \<notin> fst ` {e' \<in> set (x # xs). P (snd e')}) acc"
      unfolding filter_filter
    proof (rule filter_cong [OF refl])
      fix e
      have "{e' \<in> set (x # xs). P (snd e')} = insert x {e' \<in> set xs. P (snd e')}"
        using True by (auto simp: x)
      then show "(fst e \<noteq> k \<and> fst e \<notin> fst ` {e' \<in> set xs. P (snd e')}) =
                 (fst e \<notin> fst ` {e' \<in> set (x # xs). P (snd e')})"
        by (simp add: x)
    qed
    moreover have "fold (\<lambda>(k, s) acc. if P s then AList.delete k acc else acc) (x # xs) acc =
        fold (\<lambda>(k, s) acc. if P s then AList.delete k acc else acc) xs (AList.delete k acc)"
      using True by (simp add: x)
    moreover have "AList.delete k acc = filter (\<lambda>e. fst e \<noteq> k) acc"
      by (rule delete_as_filter)
    ultimately show ?thesis
      using Cons.IH [of "AList.delete k acc"] by simp
  next
    case False
    have "{e' \<in> set (x # xs). P (snd e')} = {e' \<in> set xs. P (snd e')}"
      using False by (auto simp: x)
    moreover have "fold (\<lambda>(k, s) acc. if P s then AList.delete k acc else acc) (x # xs) acc =
        fold (\<lambda>(k, s) acc. if P s then AList.delete k acc else acc) xs acc"
      using False by (simp add: x)
    ultimately show ?thesis
      using Cons.IH [of acc] by simp
  qed
qed

lemma sweep_distinct:
  assumes "distinct (map fst xs)"
  shows "fold (\<lambda>(k, s) acc. if P s then AList.delete k acc else acc) xs xs =
         filter (\<lambda>(k, s). \<not> P s) xs"
  unfolding fold_delete_filter
proof (rule filter_cong [OF refl])
  fix e
  assume e: "e \<in> set xs"
  have "fst e \<notin> fst ` {e' \<in> set xs. P (snd e')} \<longleftrightarrow> \<not> P (snd e)"
  proof
    assume "fst e \<notin> fst ` {e' \<in> set xs. P (snd e')}"
    then show "\<not> P (snd e)" using e by force
  next
    assume n: "\<not> P (snd e)"
    show "fst e \<notin> fst ` {e' \<in> set xs. P (snd e')}"
    proof
      assume "fst e \<in> fst ` {e' \<in> set xs. P (snd e')}"
      then obtain e' where e': "e' \<in> set xs" "P (snd e')" "fst e' = fst e" by auto
      from assms e e' have "e' = e"
        by (metis distinct_map inj_on_def)
      with n e' show False by simp
    qed
  qed
  then show "(fst e \<notin> fst ` {e' \<in> set xs. P (snd e')}) = (case e of (k, s) \<Rightarrow> \<not> P s)"
    by (simp add: case_prod_beta)
qed

lemma fold_SessionManager_delete:
  "fold (\<lambda>(k, s) acc. if P s then SessionManager_delete k acc else acc) xs st =
   st\<lparr>globalSessions := fold (\<lambda>(k, s) acc. if P s then AList.delete k acc else acc) xs (globalSessions st),
      sessions := fold (\<lambda>(k, s) acc. if P s then AList.delete k acc else acc) xs (sessions st)\<rparr>"
  by (induction xs arbitrary: st) (auto simp: SessionManager_delete_def)

lemma map_of_filter_distinct:
  assumes "distinct (map fst xs)"
  shows "map_of (filter (\<lambda>(k, s). Q s) xs) c =
         (case map_of xs c of None \<Rightarrow> None | Some s \<Rightarrow> if Q s then Some s else None)"
  using assms
proof (induction xs)
  case Nil
  then show ?case by simp
next
  case (Cons x xs)
  obtain k s where x: "x = (k, s)" by (cases x)
  from Cons.prems have "k \<notin> fst ` set xs" by (simp add: x)
  then have "map_of xs k = None" by (simp add: map_of_eq_None_iff)
  moreover have "map_of (filter (\<lambda>(k, s). Q s) xs) k = None"
    using \<open>k \<notin> fst ` set xs\<close> by (auto simp: map_of_eq_None_iff)
  ultimately show ?case using Cons by (auto simp: x)
qed

lemma cleanupSessions_filter:
  assumes "distinct (map fst (globalSessions st))"
  shows "globalSessions (cleanupSessions t st) =
           filter (\<lambda>(c, s). \<not> (t - createdAt s > TWENTY_FOUR_HOURS \<and> \<not> isActive s)) (globalSessions st)"
  unfolding cleanupSessions_def fold_SessionManager_delete
  by (simp add: sweep_distinct [OF assms])


lemma cleanupSessions_other_fields:
  "events (cleanupSessions t st) = events st \<and> socketId (cleanupSessions t st) = socketId st"
  unfolding cleanupSessions_def fold_SessionManager_delete by simp

lemma cleanupSessions_rev1_filter:
  assumes "distinct (map fst ss)"
  shows "cleanupSessions_rev1 t ss =
           filter (\<lambda>(c, s). \<not> (t - createdAt s > TWO_HOURS \<and> \<not> isActive s)) ss"
  unfolding cleanupSessions_rev1_def by (rule sweep_distinct [OF assms])

text \<open>
  C7. On a store whose codes are distinct (the keys of an object), the sweep keeps exactly
  the sessions that are active or not older than the window, in their order, and removes
  the others: a code is found afterwards if and only if it was found before and its session
  is active or at most 24 hours old. In particular an inactive session created 25 hours
  ago is removed, a session created 1 hour ago is kept and an active session is kept
  whatever its age. No event is emitted. The first revision of the sweep does the same
  with its window of two hours.
\<close>

theorem cleanupSessions_removes_exactly:
  assumes "distinct (map fst (globalSessions st))"
  shows "globalSessions (cleanupSessions t st) =
           filter (\<lambda>(c, s). \<not> (t - createdAt s > TWENTY_FOUR_HOURS \<and> \<not> isActive s)) (globalSessions st)
    \<and> map_of (globalSessions (cleanupSessions t st)) c =
        (case map_of (globalSessions st) c of
           None \<Rightarrow> None
         | Some s \<Rightarrow> if \<not> isActive s \<and> t - createdAt s > TWENTY_FOUR_HOURS then None else Some s)
    \<and> (\<forall>s. map_of (globalSessions st) c = Some s \<and> \<not> isActive s
            \<and> t - createdAt s = 25 * 60 * 60 * 1000 \<longrightarrow>
          map_of (globalSessions (cleanupSessions t st)) c = None)
    \<and> (\<forall>s. map_of (globalSessions st) c = Some s \<and> t - createdAt s = 1 * 60 * 60 * 1000 \<longrightarrow>
          map_of (globalSessions (cleanupSessions t st)) c = Some s)
    \<and> (\<forall>s. map_of (globalSessions st) c = Some s \<and> isActive s \<longrightarrow>
          map_of (globalSessions (cleanupSessions t st)) c = Some s)
    \<and> events (cleanupSessions t st) = events st
    \<and> (distinct (map fst ss) \<longrightarrow>
          cleanupSessions_rev1 t ss =
            filter (\<lambda>(c, s). \<not> (t - createdAt s > TWO_HOURS \<and> \<not> isActive s)) ss)"
proof -
  have m: "map_of (globalSessions (cleanupSessions t st)) c =
        (case map_of (globalSessions st) c of
           None \<Rightarrow> None
         | Some s \<Rightarrow> if \<not> isActive s \<and> t - createdAt s > TWENTY_FOUR_HOURS then None else Some s)"
    unfolding cleanupSessions_filter [OF assms] map_of_filter_distinct [OF assms]
    by (auto split: option.splits)
  show ?thesis
    using m cleanupSessions_filter [OF assms, of t] cleanupSessions_rev1_filter [of ss t]
    by (simp add: cleanupSessions_other_fields TWENTY_FOUR_HOURS_def)
qed

theorem cleanupSessions_removes_exactly_witness:
  "distinct (map fst (globalSessions sweepState))
   \<and> isActive oldClosed = False \<and> 100000000 - createdAt oldClosed = 25 * 60 * 60 * 1000
   \<and> isActive recentClosed = False \<and> 100000000 - createdAt recentClosed = 1 * 60 * 60 * 1000
   \<and> isActive oldActive = True \<and> 100000000 - createdAt oldActive = 25 * 60 * 60 * 1000
   \<and> globalSessions (cleanupSessions 100000000 sweepState) =
       [(''NEW00001'', recentClosed), (''ACT00001'', oldActive)]
   \<and> cleanupSessions_rev1 100000000 (globalSessions sweepState) =
       [(''NEW00001'', recentClosed), (''ACT00001'', oldActive)]"
proof -
  have d: "distinct (map fst (globalSessions sweepState))"
    by (simp add: sweepState_def)
  have f: "isActive oldClosed = False" "100000000 - createdAt oldClosed = 25 * 60 * 60 * 1000"
    "isActive recentClosed = False" "100000000 - createdAt recentClosed = 1 * 60 * 60 * 1000"
    "isActive oldActive = True" "100000000 - createdAt oldActive = 25 * 60 * 60 * 1000"
    by (simp_all add: oldClosed_def recentClosed_def oldActive_def session0_def)
  have g: "globalSessions sweepState =
      [(''OLD00001'', oldClosed), (''NEW00001'', recentClosed), (''ACT00001'', oldActive)]"
    by (simp add: sweepState_def)
  from cleanupSessions_removes_exactly [OF d, of 100000000 "''OLD00001''" "globalSessions sweepState"] d
  have "globalSessions (cleanupSessions 100000000 sweepState) =
       [(''NEW00001'', recentClosed), (''ACT00001'', oldActive)]"
    and "cleanupSessions_rev1 100000000 (globalSessions sweepState) =
       [(''NEW00001'', recentClosed), (''ACT00001'', oldActive)]"
    unfolding g using f by (simp_all add: TWENTY_FOUR_HOURS_def TWO_HOURS_def)
  with d f show ?thesis by simp
qed

subsection \<open>Session codes\<close>

lemma drawCode_snd: "snd (drawCode n code rnd) = sdrop n rnd"
  by (induction n arbitrary: code rnd) simp_all

lemma generateSessionCode_unfold:
  "generateSessionCode st rnd =
     (if SessionManager_get (candidate rnd 0) st \<noteq> None
      then generateSessionCode st (sdrop 8 rnd)
      else Some (candidate rnd 0, sdrop 8 rnd))"
proof -
  have "drawCode 8 [] rnd = (candidate rnd 0, sdrop 8 rnd)"
    using drawCode_snd [of 8 "[]" rnd] by (simp add: candidate_def prod_eq_iff)
  then show ?thesis
    by (subst generateSessionCode.simps) simp
qed

lemma candidate_sdrop: "candidate (sdrop 8 rnd) j = candidate rnd (Suc j)"
  by (simp add: candidate_def sdrop_add add.commute)

lemma generateSessionCode_first_free:
  assumes "SessionManager_get (candidate rnd k) st = None"
    and "\<forall>j<k. SessionManager_get (candidate rnd j) st \<noteq> None"
  shows "generateSessionCode st rnd = Some (candidate rnd k, sdrop (8 * Suc k) rnd)"
  using assms
proof (induction k arbitrary: rnd)
  case 0
  then show ?case
    by (subst generateSessionCode_unfold) simp
next
  case (Suc k)
  have occ: "SessionManager_get (candidate rnd 0) st \<noteq> None"
    using Suc.prems(2) by blast
  have "generateSessionCode st (sdrop 8 rnd) =
      Some (candidate (sdrop 8 rnd) k, sdrop (8 * Suc k) (sdrop 8 rnd))"
  proof (rule Suc.IH)
    show "SessionManager_get (candidate (sdrop 8 rnd) k) st = None"
      using Suc.prems(1) by (simp add: candidate_sdrop)
    show "\<forall>j<k. SessionManager_get (candidate (sdrop 8 rnd) j) st \<noteq> None"
      using Suc.prems(2) by (simp add: candidate_sdrop)
  qed
  then show ?case
    using occ by (subst generateSessionCode_unfold) (simp add: candidate_sdrop sdrop_add add.commute)
qed

text \<open>
  C10. With the random source as a stream, read as the stream of the candidate codes that
  eight draws each make: whenever some candidate of the stream is not a code of the store,
  \<open>generateSessionCode\<close> returns, and what it returns is the first candidate that is
  not in the store (every earlier candidate is), with the rest of the random source after
  that candidate.
\<close>

theorem generateSessionCode_terminates_first_free:
  assumes "\<exists>k. SessionManager_get (candidate rnd k) st = None"
  shows "\<exists>k. SessionManager_get (candidate rnd k) st = None
           \<and> (\<forall>j<k. SessionManager_get (candidate rnd j) st \<noteq> None)
           \<and> generateSessionCode st rnd = Some (candidate rnd k, sdrop (8 * Suc k) rnd)"
proof -
  define k where "k = (LEAST k. SessionManager_get (candidate rnd k) st = None)"
  have free: "SessionManager_get (candidate rnd k) st = None"
    unfolding k_def using assms by (rule LeastI_ex)
  have occ: "\<forall>j<k. SessionManager_get (candidate rnd j) st \<noteq> None"
    unfolding k_def using not_less_Least by blast
  from free occ have "generateSessionCode st rnd = Some (candidate rnd k, sdrop (8 * Suc k) rnd)"
    by (rule generateSessionCode_first_free)
  with free occ show ?thesis by blast
qed


text \<open>Whatever \<open>generateSessionCode\<close> returns is a candidate of the stream that is not
  in the store; with every index below \<^verbatim>\<open>chars.length\<close> it has eight characters of
  \<open>chars\<close>, and so has the code of the session \<open>createSession\<close> returns.\<close>

lemma generateSessionCode_Some:
  assumes "generateSessionCode st rnd = Some r"
  shows "\<exists>k. r = (candidate rnd k, sdrop (8 * Suc k) rnd)
           \<and> SessionManager_get (candidate rnd k) st = None"
proof (rule generateSessionCode.raw_induct [OF _ assms])
  fix gen st rnd r
  assume IH: "\<And>st rnd r. gen st rnd = Some r \<Longrightarrow>
      \<exists>k. r = (candidate rnd k, sdrop (8 * Suc k) rnd)
          \<and> SessionManager_get (candidate rnd k) st = None"
    and step: "(case drawCode 8 [] rnd of
        (code, rnd') \<Rightarrow>
          if SessionManager_get code st \<noteq> None then gen st rnd' else Some (code, rnd')) = Some r"
  have d: "drawCode 8 [] rnd = (candidate rnd 0, sdrop 8 rnd)"
    using drawCode_snd [of 8 "[]" rnd] by (simp add: candidate_def prod_eq_iff)
  show "\<exists>k. r = (candidate rnd k, sdrop (8 * Suc k) rnd)
          \<and> SessionManager_get (candidate rnd k) st = None"
  proof (cases "SessionManager_get (candidate rnd 0) st \<noteq> None")
    case True
    with step have "gen st (sdrop 8 rnd) = Some r" by (simp add: d)
    from IH [OF this] obtain k where
      "r = (candidate (sdrop 8 rnd) k, sdrop (8 * Suc k) (sdrop 8 rnd))"
      "SessionManager_get (candidate (sdrop 8 rnd) k) st = None"
      by blast
    then have "r = (candidate rnd (Suc k), sdrop (8 * Suc (Suc k)) rnd)
        \<and> SessionManager_get (candidate rnd (Suc k)) st = None"
      by (simp add: candidate_sdrop sdrop_add add.commute)
    then show ?thesis by blast
  next
    case False
    with step have "r = (candidate rnd 0, sdrop (8 * Suc 0) rnd)
        \<and> SessionManager_get (candidate rnd 0) st = None"
      by (auto simp: d)
    then show ?thesis by blast
  qed
qed

lemma charAt_chars: "set (charAt chars i) \<subseteq> set chars"
  by (auto simp: charAt_def)

lemma drawCode_chars: "set (fst (drawCode n code rnd)) \<subseteq> set code \<union> set chars"
proof (induction n arbitrary: code rnd)
  case 0
  then show ?case by simp
next
  case (Suc n)
  from Suc.IH [of "code @ charAt chars (shd rnd)" "stl rnd"] charAt_chars [of "shd rnd"]
  show ?case by auto
qed

lemma drawCode_length:
  assumes "\<forall>i. rnd !! i < length chars"
  shows "length (fst (drawCode n code rnd)) = length code + n"
  using assms
proof (induction n arbitrary: code rnd)
  case 0
  then show ?case by simp
next
  case (Suc n)
  from Suc.prems have "shd rnd < length chars"
    by (metis snth.simps(1))
  then have c: "length (charAt chars (shd rnd)) = 1"
    by (simp add: charAt_def)
  have "\<forall>i. stl rnd !! i < length chars"
    using Suc.prems by (metis snth.simps(2))
  from Suc.IH [OF this, of "code @ charAt chars (shd rnd)"] c show ?case
    by simp
qed

lemma candidate_chars: "set (candidate rnd k) \<subseteq> set chars"
  using drawCode_chars [of 8 "[]" "sdrop (8 * k) rnd"] by (simp add: candidate_def)

text \<open>A candidate is made of characters of \<open>chars\<close>, so it is no name of
  \<open>objectPrototype\<close>: the test of the loop reads a stored session or nothing.\<close>

lemma candidate_not_inherited: "candidate rnd k \<notin> set objectPrototype"
proof
  assume a: "candidate rnd k \<in> set objectPrototype"
  have "CHR ''e'' \<notin> set chars" "CHR ''o'' \<notin> set chars"
    by (simp_all add: chars_def)
  then have "CHR ''e'' \<notin> set (candidate rnd k)" "CHR ''o'' \<notin> set (candidate rnd k)"
    using candidate_chars [of rnd k] by blast+
  moreover have "CHR ''e'' \<in> set n \<or> CHR ''o'' \<in> set n" if "n \<in> set objectPrototype" for n
    using that by (auto simp: objectPrototype_def)
  ultimately show False using a by blast
qed

lemma readGlobalSessions_candidate:
  "readGlobalSessions (candidate rnd k) st = map_option Stored (SessionManager_get (candidate rnd k) st)"
  by (simp add: readGlobalSessions_def SessionManager_get_def candidate_not_inherited
      split: option.splits)

lemma candidate_shape:
  assumes "\<forall>i. rnd !! i < length chars"
  shows "length (candidate rnd k) = 8 \<and> set (candidate rnd k) \<subseteq> set chars"
proof -
  have "\<forall>i. sdrop (8 * k) rnd !! i < length chars"
    using assms by (simp add: sdrop_snth)
  from drawCode_length [OF this, of 8 "[]"] candidate_chars [of rnd k] show ?thesis
    by (simp add: candidate_def)
qed

lemma createSession_code_shape:
  assumes "\<forall>i. rnd !! i < length chars"
    and "createSession cfg t rnd st = Some (s, st', rnd')"
  shows "length (id_session s) = 8
       \<and> set (id_session s) \<subseteq> set chars
       \<and> SessionManager_get (id_session s) st = None
       \<and> SessionManager_get (id_session s) st' = Some s"
proof -
  from assms(2) obtain ident where
    g: "generateSessionCode st rnd = Some (ident, rnd')" and i: "id_session s = ident"
    and st': "globalSessions st' = AList.update ident s (globalSessions st)"
    by (auto simp: createSession_def Let_def SessionManager_save_def split: option.splits)
  from generateSessionCode_Some [OF g] obtain k where
    "ident = candidate rnd k" "SessionManager_get (candidate rnd k) st = None"
    by auto
  with candidate_shape [OF assms(1), of k] i st' show ?thesis
    by (simp add: SessionManager_get_def AList.update_conv')
qed

lemma candidate_randomAB:
  "candidate randomAB 0 = ''AAAAAAAA''" "candidate randomAB (Suc 0) = ''BBBBBBBB''"
  by (simp_all add: candidate_def randomAB_def eval_nat_numeral charAt_def chars_def)

theorem generateSessionCode_terminates_first_free_witness:
  "SessionManager_get (candidate randomAB 1) occupiedState = None
   \<and> SessionManager_get (candidate randomAB 0) occupiedState \<noteq> None
   \<and> candidate randomAB 0 = ''AAAAAAAA''
   \<and> map_option fst (generateSessionCode occupiedState randomAB) = Some ''BBBBBBBB''"
proof -
  have free: "SessionManager_get (candidate randomAB 1) occupiedState = None"
    by (simp add: candidate_randomAB SessionManager_get_def occupiedState_def)
  have occ: "SessionManager_get (candidate randomAB 0) occupiedState \<noteq> None"
    by (simp add: candidate_randomAB SessionManager_get_def occupiedState_def)
  from free have "\<exists>k. SessionManager_get (candidate randomAB k) occupiedState = None" ..
  from generateSessionCode_terminates_first_free [OF this] obtain k where
    k: "SessionManager_get (candidate randomAB k) occupiedState = None"
      "\<forall>j<k. SessionManager_get (candidate randomAB j) occupiedState \<noteq> None"
      "generateSessionCode occupiedState randomAB =
         Some (candidate randomAB k, sdrop (8 * Suc k) randomAB)"
    by blast
  have "k = 1"
  proof -
    have "\<not> 1 < k" using k(2) free by blast
    moreover have "k \<noteq> 0" using k(1) occ by (cases k) auto
    ultimately show ?thesis by simp
  qed
  with k(3) have "map_option fst (generateSessionCode occupiedState randomAB) = Some ''BBBBBBBB''"
    by (simp add: candidate_randomAB del: sdrop.simps)
  with free occ show ?thesis
    by (simp add: candidate_randomAB)
qed


text \<open>
  C5 at a failing input. In the first revision of the file the candidate is
  \<^verbatim>\<open>Math.random().toString(36).substring(2, 10).toUpperCase()\<close>. When \<^verbatim>\<open>Math.random()\<close>
  returns 0.5, whose base-36 expansion is \<^verbatim>\<open>0.i\<close>, \<open>createSession\<close> on an empty store
  returns a session whose code is the single character \<open>I\<close>, not eight characters. The
  later revision draws eight characters of \<open>chars\<close> (\<open>createSession_code_shape\<close>).
\<close>

theorem createSession_rev1_short_code:
  "map_option (id_session \<circ> fst) (createSession_rev1 config0 5000 (sconst ''0.i'') []) = Some ''I''
   \<and> length ''I'' = 1"
proof -
  have "toUpperCase (substring ''0.i'' 2 10) = ''I''"
    by (simp add: substring_def toUpperCase_def toUpperChar_def)
  then have "generateSessionCode_rev1 [] (sconst ''0.i'') = Some (''I'', sconst ''0.i'')"
    by (subst generateSessionCode_rev1.simps) simp
  then show ?thesis
    by (simp add: createSession_rev1_def Let_def)
qed

lemma createSession_example:
  "map_option (id_session \<circ> fst) (createSession config0 5000 randomAB occupiedState) = Some ''BBBBBBBB''"
proof -
  have free: "SessionManager_get (candidate randomAB (Suc 0)) occupiedState = None"
    by (simp add: candidate_randomAB SessionManager_get_def occupiedState_def)
  have occ: "\<forall>j<Suc 0. SessionManager_get (candidate randomAB j) occupiedState \<noteq> None"
    by (simp add: candidate_randomAB SessionManager_get_def occupiedState_def)
  from generateSessionCode_first_free [OF free occ] show ?thesis
    by (simp add: createSession_def candidate_randomAB Let_def del: sdrop.simps)
qed

subsection \<open>Bottle pool\<close>

lemma bottleExists_iff:
  "bottleExists oc m \<longleftrightarrow> id_message m \<in> set (map (id_message \<circ> userData_message) (bottles oc))"
  by (force simp: bottleExists_def list_ex_iff image_iff)

lemma createBottle_fields:
  "\<exists>b. userData_message b = m
     \<and> bottles (createBottle m i oc) = bottles oc @ [b]
     \<and> scene (createBottle m i oc) = scene oc @ [b]
     \<and> clickableBottles (createBottle m i oc) = clickableBottles oc"
  by (simp add: createBottle_def Let_def)

lemma insert_collect_step:
  assumes "E m" and "\<And>m'. E1 m' \<longleftrightarrow> E m' \<and> f m' \<noteq> f m"
  shows "insert (f m) {f m' | m'. m' \<in> set ms \<and> E1 m'} = {f m' | m'. m' \<in> set (m # ms) \<and> E m'}"
proof (rule set_eqI)
  fix x
  show "x \<in> insert (f m) {f m' | m'. m' \<in> set ms \<and> E1 m'} \<longleftrightarrow>
        x \<in> {f m' | m'. m' \<in> set (m # ms) \<and> E m'}"
  proof
    assume "x \<in> insert (f m) {f m' | m'. m' \<in> set ms \<and> E1 m'}"
    then consider "x = f m" | m' where "x = f m'" "m' \<in> set ms" "E1 m'" by blast
    then show "x \<in> {f m' | m'. m' \<in> set (m # ms) \<and> E m'}"
    proof cases
      case 1
      then show ?thesis using assms(1) by auto
    next
      case 2
      then show ?thesis using assms(2) by auto
    qed
  next
    assume "x \<in> {f m' | m'. m' \<in> set (m # ms) \<and> E m'}"
    then obtain m' where m': "x = f m'" "m' \<in> set (m # ms)" "E m'" by blast
    show "x \<in> insert (f m) {f m' | m'. m' \<in> set ms \<and> E1 m'}"
    proof (cases "f m' = f m")
      case True
      then show ?thesis using m' by simp
    next
      case False
      then have "m' \<in> set ms" "E1 m'" using m' assms(2) by auto
      then show ?thesis using m'(1) by blast
    qed
  qed
qed

lemma collect_skip:
  assumes "\<not> E m"
  shows "{f m' | m'. m' \<in> set ms \<and> E m'} = {f m' | m'. m' \<in> set (m # ms) \<and> E m'}"
  using assms by auto

lemma updateLoop_new:
  "\<exists>new. bottles (updateLoop ms i oc) = bottles oc @ new
     \<and> clickableBottles (updateLoop ms i oc) = clickableBottles oc
     \<and> distinct (map (id_message \<circ> userData_message) new)
     \<and> set (map (id_message \<circ> userData_message) new) =
         {id_message m | m. m \<in> set ms \<and> (\<not> isRead m \<or> \<not> clickableBottles oc) \<and> \<not> bottleExists oc m}
     \<and> set (map userData_message new) \<subseteq>
         {m \<in> set ms. (\<not> isRead m \<or> \<not> clickableBottles oc) \<and> \<not> bottleExists oc m}"
proof (induction ms arbitrary: i oc)
  case Nil
  then show ?case by simp
next
  case (Cons m ms)
  let ?elig = "\<lambda>oc m. (\<not> isRead m \<or> \<not> clickableBottles oc) \<and> \<not> bottleExists oc m"
  show ?case
  proof (cases "?elig oc m")
    case True
    obtain b where b: "userData_message b = m"
      "bottles (createBottle m i oc) = bottles oc @ [b]"
      "clickableBottles (createBottle m i oc) = clickableBottles oc"
      using createBottle_fields by blast
    let ?oc1 = "createBottle m i oc"
    from Cons.IH [of "Suc i" ?oc1] obtain new where new:
      "bottles (updateLoop ms (Suc i) ?oc1) = bottles ?oc1 @ new"
      "clickableBottles (updateLoop ms (Suc i) ?oc1) = clickableBottles ?oc1"
      "distinct (map (id_message \<circ> userData_message) new)"
      "set (map (id_message \<circ> userData_message) new) = {id_message m' | m'. m' \<in> set ms \<and> ?elig ?oc1 m'}"
      "set (map userData_message new) \<subseteq> {m' \<in> set ms. ?elig ?oc1 m'}"
      by blast
    have ex1: "bottleExists ?oc1 m' \<longleftrightarrow> bottleExists oc m' \<or> id_message m' = id_message m" for m'
      by (auto simp: bottleExists_iff b)
    have step: "updateLoop (m # ms) i oc = updateLoop ms (Suc i) ?oc1"
      using True by simp
    have 1: "bottles (updateLoop (m # ms) i oc) = bottles oc @ (b # new)"
      unfolding step by (simp add: new(1) b(2))
    have 2: "clickableBottles (updateLoop (m # ms) i oc) = clickableBottles oc"
      unfolding step by (simp add: new(2) b(3))
    have "id_message m \<notin> {id_message m' | m'. m' \<in> set ms \<and> ?elig ?oc1 m'}"
    proof
      assume "id_message m \<in> {id_message m' | m'. m' \<in> set ms \<and> ?elig ?oc1 m'}"
      then obtain m' where "id_message m = id_message m'" "\<not> bottleExists ?oc1 m'"
        by blast
      then show False by (simp add: ex1)
    qed
    then have "id_message m \<notin> set (map (id_message \<circ> userData_message) new)"
      unfolding new(4) .
    then have 3: "distinct (map (id_message \<circ> userData_message) (b # new))"
      using new(3) by (simp add: b(1))
    have e1: "?elig ?oc1 m' \<longleftrightarrow> ?elig oc m' \<and> id_message m' \<noteq> id_message m" for m'
      unfolding ex1 b(3) by blast
    have 4: "set (map (id_message \<circ> userData_message) (b # new)) =
        {id_message m' | m'. m' \<in> set (m # ms) \<and> ?elig oc m'}"
    proof -
      have "set (map (id_message \<circ> userData_message) (b # new)) =
          insert (id_message m) {id_message m' | m'. m' \<in> set ms \<and> ?elig ?oc1 m'}"
        using new(4) by (simp add: b(1))
      also have "\<dots> = {id_message m' | m'. m' \<in> set (m # ms) \<and> ?elig oc m'}"
        using True e1 by (rule insert_collect_step)
      finally show ?thesis .
    qed
    have "{m' \<in> set ms. ?elig ?oc1 m'} \<subseteq> {m' \<in> set (m # ms). ?elig oc m'}"
      using e1 by auto
    then have 5: "set (map userData_message (b # new)) \<subseteq> {m' \<in> set (m # ms). ?elig oc m'}"
      using new(5) True by (simp add: b(1))
    show ?thesis
      by (intro exI [of _ "b # new"] conjI 1 2 3 4 5)
  next
    case False
    from Cons.IH [of "Suc i" oc] obtain new where new:
      "bottles (updateLoop ms (Suc i) oc) = bottles oc @ new"
      "clickableBottles (updateLoop ms (Suc i) oc) = clickableBottles oc"
      "distinct (map (id_message \<circ> userData_message) new)"
      "set (map (id_message \<circ> userData_message) new) = {id_message m' | m'. m' \<in> set ms \<and> ?elig oc m'}"
      "set (map userData_message new) \<subseteq> {m' \<in> set ms. ?elig oc m'}"
      by blast
    have step: "updateLoop (m # ms) i oc = updateLoop ms (Suc i) oc"
      using False by auto
    have 4: "{id_message m' | m'. m' \<in> set ms \<and> ?elig oc m'} =
        {id_message m' | m'. m' \<in> set (m # ms) \<and> ?elig oc m'}"
      using False by (rule collect_skip)
    have 5: "{m' \<in> set ms. ?elig oc m'} \<subseteq> {m' \<in> set (m # ms). ?elig oc m'}"
      by auto
    have n4: "set (map (id_message \<circ> userData_message) new) =
        {id_message m' | m'. m' \<in> set (m # ms) \<and> ?elig oc m'}"
      using new(4) 4 by (rule trans)
    have n5: "set (map userData_message new) \<subseteq> {m' \<in> set (m # ms). ?elig oc m'}"
      using new(5) 5 by (rule subset_trans)
    show ?thesis
      unfolding step by (intro exI [of _ new] conjI new(1) new(2) new(3) n4 n5)
  qed
qed

lemma updateLoop_nothing_to_add:
  "\<forall>m \<in> set ms. (\<not> isRead m \<or> \<not> clickableBottles oc) \<longrightarrow> bottleExists oc m \<Longrightarrow>
   updateLoop ms i oc = oc"
proof (induction ms arbitrary: i)
  case Nil
  then show ?case by simp
next
  case (Cons m ms)
  from Cons.prems have "\<not> (\<not> bottleExists oc m \<and> (\<not> isRead m \<or> \<not> clickableBottles oc))"
    by auto
  then have "updateLoop (m # ms) i oc = updateLoop ms (Suc i) oc"
    by (simp only: updateLoop.simps if_False)
  also have "\<dots> = oc"
    using Cons.prems by (intro Cons.IH) simp
  finally show ?case .
qed


text \<open>
  C8. For every pool and every message list, \<open>updateOceanBottles\<close> leaves the bottles of
  the pool in place and appends new ones. The new bottles carry pairwise different message
  identifiers; each is the bottle of a message of the list that is eligible (unread, or the
  scene is not clickable) and whose identifier was not in the pool; and every identifier of
  such a message gets a bottle. A second call with the same list changes nothing.
\<close>

theorem updateOceanBottles_add_only_idempotent:
  "\<exists>new. bottles (updateOceanBottles msgs oc) = bottles oc @ new
     \<and> distinct (map (id_message \<circ> userData_message) new)
     \<and> set (map (id_message \<circ> userData_message) new) =
         {id_message m | m. m \<in> set msgs \<and> (\<not> isRead m \<or> \<not> clickableBottles oc) \<and> \<not> bottleExists oc m}
     \<and> set (map userData_message new) \<subseteq>
         {m \<in> set msgs. (\<not> isRead m \<or> \<not> clickableBottles oc) \<and> \<not> bottleExists oc m}
     \<and> updateOceanBottles msgs (updateOceanBottles msgs oc) = updateOceanBottles msgs oc"
proof -
  let ?oc' = "updateLoop msgs 0 oc"
  from updateLoop_new [of msgs 0 oc] obtain new where new:
    "bottles ?oc' = bottles oc @ new"
    "clickableBottles ?oc' = clickableBottles oc"
    "distinct (map (id_message \<circ> userData_message) new)"
    "set (map (id_message \<circ> userData_message) new) =
       {id_message m | m. m \<in> set msgs \<and> (\<not> isRead m \<or> \<not> clickableBottles oc) \<and> \<not> bottleExists oc m}"
    "set (map userData_message new) \<subseteq>
       {m \<in> set msgs. (\<not> isRead m \<or> \<not> clickableBottles oc) \<and> \<not> bottleExists oc m}"
    by blast
  have "bottleExists ?oc' m" if m: "m \<in> set msgs" "\<not> isRead m \<or> \<not> clickableBottles ?oc'" for m
  proof (cases "bottleExists oc m")
    case True
    then show ?thesis by (simp add: bottleExists_iff new(1))
  next
    case False
    with m have "id_message m \<in> set (map (id_message \<circ> userData_message) new)"
      unfolding new(4) new(2) by blast
    then show ?thesis by (simp add: bottleExists_iff new(1))
  qed
  then have "updateLoop msgs 0 ?oc' = ?oc'"
    by (intro updateLoop_nothing_to_add) blast
  then show ?thesis
    unfolding updateOceanBottles_def
    by (intro exI [of _ new] conjI new(1) new(3) new(4) new(5))
qed

theorem updateOceanBottles_add_only_idempotent_witness:
  "map userData_message (bottles ocean0) = [message1]
   \<and> isRead message3 \<and> clickableBottles ocean0
   \<and> map userData_message (bottles (updateOceanBottles [message1, message2, message3] ocean0))
       = [message1, message2]
   \<and> updateOceanBottles [message1, message2, message3]
        (updateOceanBottles [message1, message2, message3] ocean0)
       = updateOceanBottles [message1, message2, message3] ocean0"
proof -
  have ids: "id_message message1 = ''msg_1''" "id_message message2 = ''msg_2''"
    "id_message message3 = ''msg_3''" "isRead message3" "\<not> isRead message2"
    by (simp_all add: message1_def message2_def message3_def message0_def messageObj_def)
  have e1: "bottleExists ocean0 message1"
    by (simp add: bottleExists_def ocean0_def bottle1_def)
  have e2: "\<not> bottleExists ocean0 message2"
    by (simp add: bottleExists_def ocean0_def bottle1_def ids)
  have c: "clickableBottles ocean0" "clickableBottles (createBottle message2 (Suc 0) ocean0)"
    by (simp_all add: ocean0_def createBottle_def Let_def)
  have "updateOceanBottles [message1, message2, message3] ocean0 =
      createBottle message2 (Suc 0) ocean0"
    by (simp add: updateOceanBottles_def e1 e2 ids c)
  then have b: "map userData_message (bottles (updateOceanBottles [message1, message2, message3] ocean0))
       = [message1, message2]"
    by (simp add: createBottle_def Let_def ocean0_def bottle1_def)
  from updateOceanBottles_add_only_idempotent [of "[message1, message2, message3]" ocean0]
  have "updateOceanBottles [message1, message2, message3]
        (updateOceanBottles [message1, message2, message3] ocean0)
       = updateOceanBottles [message1, message2, message3] ocean0"
    by blast
  with b ids c show ?thesis
    by (simp add: ocean0_def bottle1_def)
qed

subsection \<open>CSV export\<close>

lemma replaceQuotes_spec:
  "replaceQuotes str = concat (map (\<lambda>c. if c = CHR 0x22 then [CHR 0x22, CHR 0x22] else [c]) str)"
  by (induction str) simp_all

lemma csvRow_spec:
  "csvRow toISOString m = joinWith '','' (csvFields_spec toISOString m) @ [CHR 0x0A]"
  by (simp add: csvRow_def csvFields_spec_def nameField_spec_def quoteField_spec_def
      replaceQuotes_spec orNull_def Let_def split: option.splits)

lemma fold_csv:
  "fold (\<lambda>msg csv. csv @ csvRow toISOString msg) msgs acc =
   acc @ concat (map (\<lambda>m. joinWith '','' (csvFields_spec toISOString m) @ [CHR 0x0A]) msgs)"
  by (induction msgs arbitrary: acc) (simp_all add: csvRow_spec)

text \<open>
  C9. For every stored session with at least one message, \<open>exportMessages\<close> produces the
  header line \<^verbatim>\<open>Timestamp,Name,Anonymous,Option,Message,Word Count\<close> followed by one line
  per message in insertion order, each line ended by a line feed. The line of a message is
  its six fields joined by commas: the ISO string of its timestamp, the name
  (\<^verbatim>\<open>Anonymous\<close> when the anonymity flag is set, otherwise the display name, or
  \<^verbatim>\<open>Unknown\<close> when there is none), \<^verbatim>\<open>Yes\<close> or \<^verbatim>\<open>No\<close>, the option or \<^verbatim>\<open>N/A\<close>, the
  text in double quotes with every double quote of the text doubled, and the word count.
  The store is not changed.
\<close>

theorem exportMessages_csv:
  assumes "map_of (globalSessions st) code = Some s" and "messages s \<noteq> []"
  shows "fst (exportMessages toISOString code st) = Some (csv_spec toISOString (messages s))
    \<and> length (csvLines_spec toISOString (messages s)) = Suc (length (messages s))
    \<and> (\<forall>i < length (messages s).
          csvLines_spec toISOString (messages s) ! Suc i =
            joinWith '','' (csvFields_spec toISOString (messages s ! i)))
    \<and> globalSessions (snd (exportMessages toISOString code st)) = globalSessions st"
  using assms
  by (simp add: exportMessages_def getSession_Some fold_csv csv_spec_def csvLines_spec_def
      comp_def)


theorem exportMessages_csv_witness:
  \<open>map_of (globalSessions quoteState) ''ABCD1234'' = Some quoteSession
   \<and> map messageText (messages quoteSession) = [''He said "hi"'']
   \<and> map isAnonymous (messages quoteSession) = [True]
   \<and> map timestamp (messages quoteSession) = [5000]
   \<and> joinWith '','' (csvFields_spec toISOString_1970 (messages quoteSession ! 0)) =
        ''1970-01-01T00:00:05.000Z,Anonymous,Yes,N/A,"He said ""hi""",3''
   \<and> fst (exportMessages toISOString_1970 ''ABCD1234'' quoteState) =
        Some (''Timestamp,Name,Anonymous,Option,Message,Word Count'' @ [CHR 0x0A] @
              ''1970-01-01T00:00:05.000Z,Anonymous,Yes,N/A,"He said ""hi""",3'' @ [CHR 0x0A])\<close>
proof -
  have g: "map_of (globalSessions quoteState) ''ABCD1234'' = Some quoteSession"
    by (simp add: quoteState_def)
  have ne: "messages quoteSession \<noteq> []"
    by (simp add: quoteSession_def)
  have cw: \<open>countWords ''He said "hi"'' = 3\<close>
    by (simp add: countWords_def trim_def isSpace_def)
  have m: \<open>messages quoteSession =
      [\<lparr>id_message = ''msg_k3x91'', participantId = ''socket_a1'', studentName = None,
        isAnonymous = True, selectedOption = None, messageText = ''He said "hi"'',
        wordCount = 3, timestamp = 5000, isRead = False,
        bottlePosition = generateBottlePosition 0, bottleColor = ''hsl(200, 60%, 70%)''\<rparr>]\<close>
    using cw by (simp add: quoteSession_def messageObj_def quoteInput_def env0_def orNull_def)
  have iso: "toISOString_1970 5000 = ''1970-01-01T00:00:05.000Z''"
    by (simp add: toISOString_1970_def digitChar_def Let_def)
  have row: \<open>joinWith '','' (csvFields_spec toISOString_1970 (messages quoteSession ! 0)) =
        ''1970-01-01T00:00:05.000Z,Anonymous,Yes,N/A,"He said ""hi""",3''\<close>
    by (simp add: m csvFields_spec_def iso nameField_spec_def quoteField_spec_def digitChar_def)
  from exportMessages_csv [OF g ne, of toISOString_1970]
  have "fst (exportMessages toISOString_1970 ''ABCD1234'' quoteState) =
      Some (csv_spec toISOString_1970 (messages quoteSession))"
    by blast
  also have \<open>csv_spec toISOString_1970 (messages quoteSession) =
      ''Timestamp,Name,Anonymous,Option,Message,Word Count'' @ [CHR 0x0A] @
      ''1970-01-01T00:00:05.000Z,Anonymous,Yes,N/A,"He said ""hi""",3'' @ [CHR 0x0A]\<close>
    using row by (simp add: csv_spec_def csvLines_spec_def m)
  finally show ?thesis
    using g row by (simp add: m)
qed

end
